theory Spec2Isabelle
  imports Complex_Main "HOL-Library.AList" "HOL-Library.Log_Nat"
begin

section \<open>JavaScript numbers\<close>

text \<open>
  Prices, range bounds and palette indices are JavaScript numbers, that is IEEE 754
  doubles. A finite double is represented by the rational it denotes, and the three
  non-finite values that the arithmetic of \<open>getColor\<close> can produce are separate
  constructors. An arithmetic operation computes the exact result and rounds it to the
  nearest double, ties to the even significand; a result that rounds to \<open>2 ^ 1024\<close> or
  beyond is an infinity. The two zeros are not distinguished: \<open>getColor\<close> treats them
  alike (both fail the test on the price, and \<open>Math.max(0, -0)\<close> is \<open>0\<close>), and the one
  divisor it uses, \<open>max - min\<close>, is the positive zero whenever it is zero.
\<close>

datatype jsnum = Fin rat | PosInf | NegInf | NaN

text \<open>Rounding to the nearest integer, ties to even.\<close>

definition rne :: "rat \<Rightarrow> int" where
  "rne x = (let f = \<lfloor>x\<rfloor>; r = x - of_int f
            in if r < 1 / 2 then f else if 1 / 2 < r then f + 1
               else if even f then f else f + 1)"

text \<open>The binary exponent of a positive rational: the \<open>e\<close> with
  \<open>2 ^ e \<le> a < 2 ^ (e + 1)\<close>.\<close>

definition ilog2 :: "rat \<Rightarrow> int" where
  "ilog2 a = (if 1 \<le> a then bitlen \<lfloor>a\<rfloor> - 1 else - bitlen (\<lceil>1 / a\<rceil> - 1))"

text \<open>The spacing of the doubles around a positive rational: 53 significant bits, and, with
  gradual underflow, never finer than \<open>2 ^ - 1074\<close>.\<close>

definition ulp :: "bool \<Rightarrow> rat \<Rightarrow> rat" where
  "ulp gradual a = 2 powi ((if gradual then max (ilog2 a) (- 1022) else ilog2 a) - 52)"

definition round_mag :: "bool \<Rightarrow> rat \<Rightarrow> rat" where
  "round_mag gradual a = of_int (rne (a / ulp gradual a)) * ulp gradual a"

definition to_double :: "bool \<Rightarrow> rat \<Rightarrow> jsnum" where
  "to_double gradual x =
     (if x = 0 then Fin 0
      else if 0 < x
      then (if 2 ^ 1024 \<le> round_mag gradual x then PosInf else Fin (round_mag gradual x))
      else (if 2 ^ 1024 \<le> round_mag gradual (- x) then NegInf
            else Fin (- round_mag gradual (- x))))"


text \<open>\<open>a - b\<close> for doubles \<open>a\<close> and \<open>b\<close>. Both are multiples of \<open>2 ^ - 1074\<close>, so a
  difference below \<open>2 ^ - 1022\<close> in magnitude is itself a double and is not rounded:
  rounding at 53 bits leaves it unchanged, and no case for gradual underflow is needed.\<close>

definition js_sub :: "rat \<Rightarrow> rat \<Rightarrow> jsnum" where
  "js_sub a b = to_double False (a - b)"

text \<open>\<open>x / y\<close>; a zero divisor is the positive zero.\<close>

fun js_div :: "jsnum \<Rightarrow> jsnum \<Rightarrow> jsnum" where
  "js_div NaN y = NaN"
| "js_div x NaN = NaN"
| "js_div (Fin a) (Fin b) =
     (if b = 0 then (if 0 < a then PosInf else if a < 0 then NegInf else NaN)
      else to_double True (a / b))"
| "js_div (Fin a) y = Fin 0"
| "js_div PosInf (Fin b) = (if 0 \<le> b then PosInf else NegInf)"
| "js_div NegInf (Fin b) = (if 0 \<le> b then NegInf else PosInf)"
| "js_div x y = NaN"

text \<open>\<open>x * c\<close> for a finite \<open>c\<close>.\<close>

fun js_mul :: "jsnum \<Rightarrow> rat \<Rightarrow> jsnum" where
  "js_mul (Fin a) c = to_double True (a * c)"
| "js_mul PosInf c = (if 0 < c then PosInf else if c < 0 then NegInf else NaN)"
| "js_mul NegInf c = (if 0 < c then NegInf else if c < 0 then PosInf else NaN)"
| "js_mul NaN c = NaN"


fun Math_floor :: "jsnum \<Rightarrow> jsnum" where
  "Math_floor (Fin a) = Fin (of_int \<lfloor>a\<rfloor>)"
| "Math_floor x = x"

fun Math_min :: "jsnum \<Rightarrow> jsnum \<Rightarrow> jsnum" where
  "Math_min NaN y = NaN"
| "Math_min x NaN = NaN"
| "Math_min NegInf y = NegInf"
| "Math_min x NegInf = NegInf"
| "Math_min PosInf y = y"
| "Math_min x PosInf = x"
| "Math_min (Fin a) (Fin b) = Fin (min a b)"

fun Math_max :: "jsnum \<Rightarrow> jsnum \<Rightarrow> jsnum" where
  "Math_max NaN y = NaN"
| "Math_max x NaN = NaN"
| "Math_max PosInf y = PosInf"
| "Math_max x PosInf = PosInf"
| "Math_max NegInf y = y"
| "Math_max x NegInf = x"
| "Math_max (Fin a) (Fin b) = Fin (max a b)"

text \<open>\<open>xs[k]\<close>: the element when \<open>k\<close> is an integer inside the array, \<open>undefined\<close>
  (here \<open>None\<close>) for every other number.\<close>

fun array_get :: "'a list \<Rightarrow> jsnum \<Rightarrow> 'a option" where
  "array_get xs (Fin a) =
     (if of_int \<lfloor>a\<rfloor> = a \<and> 0 \<le> a \<and> nat \<lfloor>a\<rfloor> < length xs
      then Some (xs ! nat \<lfloor>a\<rfloor>) else None)"
| "array_get xs x = None"

section \<open>Data model\<close>

text \<open>
  A row of the price table is read through \<open>data[year]\<close> followed by \<open>parseFloat\<close>.
  A cell is \<open>None\<close> when it is absent, empty or does not parse to a number, and
  \<open>Some p\<close> when it is present and \<open>parseFloat\<close> returns the double \<open>p\<close>.
\<close>

type_synonym row = "int \<Rightarrow> rat option"

record feature =
  ZCTA5CE10 :: string

record geojson =
  features :: "feature list"

text \<open>\<open>AppState.priceRange\<close> and the entries of \<open>AppState.nationalPriceRange\<close>.\<close>

record priceRange =
  min_r :: rat
  max_r :: rat

text \<open>The object returned by \<open>calculatePriceRange\<close>.\<close>

record priceStats =
  min_s :: rat
  max_s :: rat
  median :: rat
  lowest :: rat
  highest :: rat
  count :: nat

text \<open>An entry of the \<open>STATES\<close> table, which the application reads from its
  configuration; the table itself is a parameter \<open>S\<close> of the functions below, and so is
  the palette \<open>COLORS\<close>, written \<open>C\<close>.\<close>

record stateInfo =
  state_name :: string
  state_file :: string

text \<open>A Leaflet layer built by \<open>L.geoJSON\<close>: the feature collection it was built from
  and the fill colour currently applied to each feature (\<open>None\<close> is \<open>undefined\<close>).\<close>

record layer =
  lgeo :: geojson
  lfill :: "string option list"

text \<open>
  The first group of fields is \<open>AppState\<close>. \<open>AppState.map\<close> is represented by the layers
  added to it and by the region last flown to. The second group is the part of the browser
  the functions act on: the layer objects (a layer's identity is its index in
  \<open>layerHeap\<close>, so that \<open>currentLayer\<close> and the map can refer to the same object), the
  active interval timers, the geometry files requested so far, the \<open>renderState\<close> calls
  suspended at their \<open>await\<close>, the loading overlay and the number of errors written to
  the console.
\<close>

record appState =
  mapLayers :: "nat list"
  mapView :: "string option"
  currentLayer :: "nat option"
  currentGeoJSON :: "geojson option"
  zhviData :: "(string \<times> row) list"
  currentYear :: int
  currentState :: "string option"
  isPlaying :: bool
  playInterval :: "nat option"
  priceRange :: priceRange
  scaleMode :: string
  nationalPriceRange :: "int \<rightharpoonup> priceRange"
  isDataLoaded :: bool
  layerHeap :: "layer list"
  intervals :: "nat list"
  nextInterval :: nat
  fetchLog :: "string list"
  pending :: "string list"
  loadingVisible :: bool
  consoleErrors :: nat

section \<open>Colour scale\<close>

text \<open>The clamped palette index computed by \<open>getColor\<close> for a non-zero price:
  \<open>Math.max(0, Math.min(Math.floor(normalized * COLORS.length), COLORS.length - 1))\<close>.
  The price and the two bounds are doubles.\<close>

definition bucketIndex :: "string list \<Rightarrow> appState \<Rightarrow> rat \<Rightarrow> jsnum" where
  "bucketIndex C st price =
     (let normalized = js_div (js_sub price (min_r (priceRange st)))
                              (js_sub (max_r (priceRange st)) (min_r (priceRange st)));
          index = Math_min (Math_floor (js_mul normalized (of_nat (length C))))
                           (Fin (of_nat (length C) - 1))
      in Math_max (Fin 0) index)"

definition getColor :: "string list \<Rightarrow> appState \<Rightarrow> rat \<Rightarrow> string option" where
  "getColor C st price =
     (if price = 0 then Some ''#6b7280'' else array_get C (bucketIndex C st price))"

section \<open>Price ranges\<close>

text \<open>The \<open>forEach\<close> of \<open>calculatePriceRange\<close>: the positive prices of the features of a
  collection for the current year, in feature order.\<close>

definition featurePrices :: "appState \<Rightarrow> feature \<Rightarrow> rat list" where
  "featurePrices st f =
     (case map_of (zhviData st) (ZCTA5CE10 f) of
        None \<Rightarrow> []
      | Some data \<Rightarrow>
          (case data (currentYear st) of
             None \<Rightarrow> []
           | Some price \<Rightarrow> if 0 < price then [price] else []))"

definition collectPrices :: "appState \<Rightarrow> geojson \<Rightarrow> rat list" where
  "collectPrices st g = concat (map (featurePrices st) (features g))"

text \<open>\<open>Math.floor(n * q)\<close> for an array length \<open>n\<close>.\<close>

definition percentileIndex :: "nat \<Rightarrow> rat \<Rightarrow> nat" where
  "percentileIndex n q = nat \<lfloor>of_nat n * q\<rfloor>"

text \<open>The rest of \<open>calculatePriceRange\<close>, from the test for an empty array on.\<close>

definition rangeOfPrices :: "rat list \<Rightarrow> priceStats" where
  "rangeOfPrices prices =
     (if length prices = 0
      then \<lparr>min_s = 0, max_s = 1000000, median = 0, lowest = 0, highest = 0, count = 0\<rparr>
      else let sorted = sort prices in
        \<lparr>min_s = sorted ! percentileIndex (length sorted) (5 / 100),
         max_s = sorted ! percentileIndex (length sorted) (95 / 100),
         median = sorted ! percentileIndex (length sorted) (5 / 10),
         lowest = sorted ! 0,
         highest = sorted ! (length sorted - 1),
         count = length sorted\<rparr>)"

definition calculatePriceRange :: "appState \<Rightarrow> geojson \<Rightarrow> priceStats" where
  "calculatePriceRange st g = rangeOfPrices (collectPrices st g)"

text \<open>\<open>calculateNationalPriceRanges\<close>: \<open>Object.values(AppState.zhviData)\<close> are the rows
  of the distinct ZIP keys; the body of the \<open>for\<close> loop is \<open>nationalRangeOf\<close>.\<close>

definition nationalPrices :: "appState \<Rightarrow> int \<Rightarrow> rat list" where
  "nationalPrices st year =
     concat (map (\<lambda>data. case data year of
                            None \<Rightarrow> []
                          | Some price \<Rightarrow> if 0 < price then [price] else [])
                 (map snd (AList.clearjunk (zhviData st))))"

definition nationalRangeOf :: "rat list \<Rightarrow> priceRange" where
  "nationalRangeOf prices =
     (if 0 < length prices
      then let sorted = sort prices;
               p5 = sorted ! percentileIndex (length sorted) (5 / 100);
               p95 = sorted ! percentileIndex (length sorted) (95 / 100)
           in \<lparr>min_r = p5, max_r = p95\<rparr>
      else \<lparr>min_r = 50000, max_r = 1000000\<rparr>)"

definition calculateNationalPriceRanges :: "appState \<Rightarrow> appState" where
  "calculateNationalPriceRanges st =
     st\<lparr>nationalPriceRange :=
          fold (\<lambda>year m. m(year \<mapsto> nationalRangeOf (nationalPrices st year)))
               [2000..2025] (nationalPriceRange st)\<rparr>"

text \<open>\<open>applyPriceRange\<close>; the legend and statistics texts it writes belong to the page and
  are not part of the state.\<close>

definition applyPriceRange :: "appState \<Rightarrow> priceStats \<Rightarrow> appState" where
  "applyPriceRange st stateRange =
     (case (if scaleMode st = ''national'' then nationalPriceRange st (currentYear st)
            else None) of
        Some national \<Rightarrow> st\<lparr>priceRange := \<lparr>min_r = min_r national, max_r = max_r national\<rparr>\<rparr>
      | None \<Rightarrow> st\<lparr>priceRange := \<lparr>min_r = min_s stateRange, max_r = max_s stateRange\<rparr>\<rparr>)"

section \<open>Styling and layers\<close>

text \<open>\<open>styleFeature\<close>: of the style object only \<open>fillColor\<close> depends on the feature, and it
  is what the function returns here.\<close>

definition styleFeature :: "string list \<Rightarrow> appState \<Rightarrow> feature \<Rightarrow> string option" where
  "styleFeature C st f =
     (let price = (case map_of (zhviData st) (ZCTA5CE10 f) of
                     None \<Rightarrow> 0
                   | Some data \<Rightarrow> (case data (currentYear st) of None \<Rightarrow> 0 | Some p \<Rightarrow> p))
      in getColor C st price)"

text \<open>\<open>L.geoJSON(geojson, {style: styleFeature})\<close> allocates a layer, styled as it is built,
  and returns it.\<close>

definition L_geoJSON :: "string list \<Rightarrow> geojson \<Rightarrow> appState \<Rightarrow> nat \<times> appState" where
  "L_geoJSON C g st =
     (length (layerHeap st),
      st\<lparr>layerHeap := layerHeap st @ [\<lparr>lgeo = g, lfill = map (styleFeature C st) (features g)\<rparr>]\<rparr>)"

text \<open>\<open>layer.setStyle(styleFeature)\<close>.\<close>

definition setStyle :: "string list \<Rightarrow> nat \<Rightarrow> appState \<Rightarrow> appState" where
  "setStyle C l st =
     (if l < length (layerHeap st)
      then st\<lparr>layerHeap := (layerHeap st)
                [l := (layerHeap st ! l)
                        \<lparr>lfill := map (styleFeature C st) (features (lgeo (layerHeap st ! l)))\<rparr>]\<rparr>
      else st)"

definition removeLayer :: "nat \<Rightarrow> appState \<Rightarrow> appState" where
  "removeLayer l st = st\<lparr>mapLayers := removeAll l (mapLayers st)\<rparr>"

definition addTo :: "nat \<Rightarrow> appState \<Rightarrow> appState" where
  "addTo l st = (if l \<in> set (mapLayers st) then st else st\<lparr>mapLayers := mapLayers st @ [l]\<rparr>)"

section \<open>Selecting a region\<close>

text \<open>
  \<open>renderState\<close> is asynchronous. \<open>renderState_begin\<close> is the part that runs when it is
  called, up to the \<open>fetch\<close> inside \<open>loadStateGeoJSON\<close>; the call is then suspended until
  the response arrives. \<open>renderState_resume\<close> is the part that runs then; its argument
  is the outcome of \<open>fetch\<close> and \<open>response.json()\<close>, \<open>None\<close> when either failed.
\<close>

definition showLoading :: "bool \<Rightarrow> appState \<Rightarrow> appState" where
  "showLoading show st = st\<lparr>loadingVisible := show\<rparr>"

text \<open>\<open>loadStateGeoJSON\<close> up to its \<open>await fetch\<close>; the flag tells whether a request was
  sent (otherwise the function has returned \<open>null\<close>).\<close>

definition loadStateGeoJSON_begin ::
    "(string \<rightharpoonup> stateInfo) \<Rightarrow> string \<Rightarrow> appState \<Rightarrow> bool \<times> appState" where
  "loadStateGeoJSON_begin S stateAbbr st =
     (case S stateAbbr of
        None \<Rightarrow> (False, st)
      | Some state \<Rightarrow>
          (True, (showLoading True st)\<lparr>fetchLog := fetchLog st @ [state_file state]\<rparr>))"

text \<open>\<open>loadStateGeoJSON\<close> from the response on: the \<open>catch\<close> logs the error and returns
  \<open>null\<close>, the \<open>finally\<close> hides the overlay.\<close>

definition loadStateGeoJSON_resume ::
    "geojson option \<Rightarrow> appState \<Rightarrow> geojson option \<times> appState" where
  "loadStateGeoJSON_resume response st =
     (case response of
        Some geojson \<Rightarrow> (Some geojson, showLoading False st)
      | None \<Rightarrow> (None, showLoading False (st\<lparr>consoleErrors := consoleErrors st + 1\<rparr>)))"

definition renderState_begin ::
    "(string \<rightharpoonup> stateInfo) \<Rightarrow> string \<Rightarrow> appState \<Rightarrow> appState" where
  "renderState_begin S stateAbbr st =
     (if stateAbbr = [] then st
      else
        let st1 = st\<lparr>currentState := Some stateAbbr\<rparr>;
            st2 = (case currentLayer st1 of
                     Some l \<Rightarrow> (removeLayer l st1)\<lparr>currentLayer := None\<rparr>
                   | None \<Rightarrow> st1);
            (sent, st3) = loadStateGeoJSON_begin S stateAbbr st2
        in if sent then st3\<lparr>pending := pending st3 @ [stateAbbr]\<rparr> else st3)"

definition renderState_resume ::
    "string list \<Rightarrow> string \<Rightarrow> geojson option \<Rightarrow> appState \<Rightarrow> appState" where
  "renderState_resume C stateAbbr response st =
     (let (result, st1) = loadStateGeoJSON_resume response st
      in case result of
           None \<Rightarrow> st1
         | Some geojson \<Rightarrow>
             let st2 = st1\<lparr>currentGeoJSON := Some geojson\<rparr>;
                 (l, st3) = L_geoJSON C geojson st2;
                 st4 = st3\<lparr>currentLayer := Some l\<rparr>;
                 stateRange = calculatePriceRange st4 geojson;
                 st5 = applyPriceRange st4 stateRange;
                 st6 = setStyle C l st5;
                 st7 = addTo l st6
             in st7\<lparr>mapView := Some stateAbbr\<rparr>)"

section \<open>Year, scale mode and animation\<close>

text \<open>The part shared by \<open>updateYear\<close> and \<open>setScaleMode\<close>: recompute the range from the
  cached collection and restyle the current layer, when both exist.\<close>

definition restyleCached :: "string list \<Rightarrow> appState \<Rightarrow> appState" where
  "restyleCached C st =
     (case (currentLayer st, currentGeoJSON st) of
        (Some l, Some g) \<Rightarrow>
          let stateRange = calculatePriceRange st g;
              st1 = applyPriceRange st stateRange
          in setStyle C l st1
      | _ \<Rightarrow> st)"

text \<open>\<open>updateYear\<close>; the argument is the integer that \<open>parseInt\<close> yields.\<close>

definition updateYear :: "string list \<Rightarrow> int \<Rightarrow> appState \<Rightarrow> appState" where
  "updateYear C year st = restyleCached C (st\<lparr>currentYear := year\<rparr>)"

definition setScaleMode :: "string list \<Rightarrow> string \<Rightarrow> appState \<Rightarrow> appState" where
  "setScaleMode C mode st = restyleCached C (st\<lparr>scaleMode := mode\<rparr>)"

definition clearInterval :: "nat option \<Rightarrow> appState \<Rightarrow> appState" where
  "clearInterval t st =
     (case t of None \<Rightarrow> st | Some i \<Rightarrow> st\<lparr>intervals := removeAll i (intervals st)\<rparr>)"

definition setInterval :: "appState \<Rightarrow> nat \<times> appState" where
  "setInterval st =
     (nextInterval st,
      st\<lparr>intervals := intervals st @ [nextInterval st], nextInterval := nextInterval st + 1\<rparr>)"

definition togglePlay :: "string list \<Rightarrow> appState \<Rightarrow> appState" where
  "togglePlay C st =
     (if isPlaying st
      then (clearInterval (playInterval st) st)\<lparr>isPlaying := False\<rparr>
      else
        let st1 = st\<lparr>isPlaying := True\<rparr>;
            st2 = (if 2025 \<le> currentYear st1 then updateYear C 2000 st1 else st1);
            (t, st3) = setInterval st2
        in st3\<lparr>playInterval := Some t\<rparr>)"

text \<open>The callback that \<open>togglePlay\<close> hands to \<open>setInterval\<close>.\<close>

definition playTick :: "string list \<Rightarrow> appState \<Rightarrow> appState" where
  "playTick C st =
     (if 2025 \<le> currentYear st then togglePlay C st
      else updateYear C (currentYear st + 1) st)"

section \<open>The event loop\<close>

text \<open>
  The application is single-threaded: what happens to the state is a sequence of events,
  each run to completion. \<open>FetchDone r response\<close> resumes a \<open>renderState r\<close> call suspended
  at its \<open>await\<close>; \<open>Tick t\<close> is the firing of interval timer \<open>t\<close>, which runs the callback
  only while the timer has not been cleared.
\<close>

datatype event =
    Select string
  | FetchDone string "geojson option"
  | ChangeYear int
  | ChangeScale string
  | TogglePlay
  | Tick nat

definition step ::
    "(string \<rightharpoonup> stateInfo) \<Rightarrow> string list \<Rightarrow> event \<Rightarrow> appState \<Rightarrow> appState" where
  "step S C e st =
     (case e of
        Select r \<Rightarrow> renderState_begin S r st
      | FetchDone r response \<Rightarrow>
          if r \<in> set (pending st)
          then renderState_resume C r response (st\<lparr>pending := remove1 r (pending st)\<rparr>)
          else st
      | ChangeYear y \<Rightarrow> updateYear C y st
      | ChangeScale m \<Rightarrow> setScaleMode C m st
      | TogglePlay \<Rightarrow> togglePlay C st
      | Tick t \<Rightarrow> if t \<in> set (intervals st) then playTick C st else st)"

definition run ::
    "(string \<rightharpoonup> stateInfo) \<Rightarrow> string list \<Rightarrow> event list \<Rightarrow> appState \<Rightarrow> appState" where
  "run S C evs st = fold (step S C) evs st"

text \<open>\<open>AppState\<close> as the script declares it, in a browser that has done nothing yet.\<close>

definition initialState :: appState where
  "initialState =
     \<lparr>mapLayers = [], mapView = None, currentLayer = None, currentGeoJSON = None,
      zhviData = [], currentYear = 2000, currentState = None, isPlaying = False,
      playInterval = None, priceRange = \<lparr>min_r = 0, max_r = 1000000\<rparr>,
      scaleMode = ''state'', nationalPriceRange = Map.empty, isDataLoaded = False,
      layerHeap = [], intervals = [], nextInterval = 0, fetchLog = [], pending = [],
      loadingVisible = False, consoleErrors = 0\<rparr>"

section \<open>Example data\<close>

text \<open>A small configuration, price table and three feature collections, used where a
  statement is evaluated on concrete input.\<close>

definition demoSTATES :: "string \<rightharpoonup> stateInfo" where
  "demoSTATES =
     [''CA'' \<mapsto> \<lparr>state_name = ''California'', state_file = ''ca_california_zip_codes_geo.min.json''\<rparr>,
      ''TX'' \<mapsto> \<lparr>state_name = ''Texas'', state_file = ''tx_texas_zip_codes_geo.min.json''\<rparr>,
      ''WI'' \<mapsto> \<lparr>state_name = ''Wisconsin'', state_file = ''wi_wisconsin_zip_codes_geo.min.json''\<rparr>]"

definition demoCOLORS :: "string list" where
  "demoCOLORS = [''#ffffb2'', ''#fecc5c'', ''#fd8d3c'', ''#e31a1c'']"

definition demoData :: "(string \<times> row) list" where
  "demoData =
     [(''54301'', \<lambda>y. if y = 2000 then Some 150000 else if y = 2001 then Some 160000
                      else if y = 2020 then Some 300000 else None),
      (''54302'', \<lambda>y. if y = 2000 then Some 100000 else if y = 2001 then Some 120000
                      else if y = 2020 then Some 400000 else None),
      (''90001'', \<lambda>y. if y = 2000 then Some 200000 else None)]"

definition demoWI :: geojson where
  "demoWI = \<lparr>features = [\<lparr>ZCTA5CE10 = ''54301''\<rparr>, \<lparr>ZCTA5CE10 = ''54302''\<rparr>]\<rparr>"

definition demoCA :: geojson where
  "demoCA = \<lparr>features = [\<lparr>ZCTA5CE10 = ''90001''\<rparr>]\<rparr>"

definition demoTX :: geojson where
  "demoTX = \<lparr>features = [\<lparr>ZCTA5CE10 = ''75001''\<rparr>, \<lparr>ZCTA5CE10 = ''75002''\<rparr>]\<rparr>"

text \<open>The initial state once the price table has been read.\<close>

definition demoState :: appState where
  "demoState = initialState\<lparr>zhviData := demoData, isDataLoaded := True\<rparr>"

text \<open>The same state with the national table computed, as it is once loading has
  finished.\<close>

definition demoLoaded :: appState where
  "demoLoaded = calculateNationalPriceRanges demoState"

section \<open>What the restyling functions change\<close>

lemma applyPriceRange_upd:
  "\<exists>pr. applyPriceRange st r = st\<lparr>priceRange := pr\<rparr>"
  by (auto simp: applyPriceRange_def split: option.splits)

lemma setStyle_upd:
  "\<exists>lh. setStyle C l st = st\<lparr>layerHeap := lh\<rparr> \<and> length lh = length (layerHeap st)"
  by (cases "l < length (layerHeap st)") (auto simp: setStyle_def intro: exI[of _ "layerHeap st"])

lemma restyleCached_upd:
  "\<exists>pr lh. restyleCached C st = st\<lparr>priceRange := pr, layerHeap := lh\<rparr>
      \<and> length lh = length (layerHeap st)"
proof (cases "currentLayer st")
  case None
  then have "restyleCached C st = st\<lparr>priceRange := priceRange st, layerHeap := layerHeap st\<rparr>"
    by (simp add: restyleCached_def)
  then show ?thesis by blast
next
  case (Some l)
  show ?thesis
  proof (cases "currentGeoJSON st")
    case None
    with Some have "restyleCached C st = st\<lparr>priceRange := priceRange st, layerHeap := layerHeap st\<rparr>"
      by (simp add: restyleCached_def)
    then show ?thesis by blast
  next
    case (Some g)
    obtain pr where pr: "applyPriceRange st (calculatePriceRange st g) = st\<lparr>priceRange := pr\<rparr>"
      using applyPriceRange_upd by blast
    obtain lh where lh: "setStyle C l (st\<lparr>priceRange := pr\<rparr>) = st\<lparr>priceRange := pr, layerHeap := lh\<rparr>"
       "length lh = length (layerHeap st)"
      using setStyle_upd[of C l "st\<lparr>priceRange := pr\<rparr>"] by auto
    from \<open>currentLayer st = Some l\<close> Some pr lh
    have "restyleCached C st = st\<lparr>priceRange := pr, layerHeap := lh\<rparr>"
      by (simp add: restyleCached_def Let_def)
    with lh show ?thesis by blast
  qed
qed

lemma updateYear_upd:
  "\<exists>pr lh. updateYear C y st = st\<lparr>currentYear := y, priceRange := pr, layerHeap := lh\<rparr>
      \<and> length lh = length (layerHeap st)"
  using restyleCached_upd[of C "st\<lparr>currentYear := y\<rparr>"] by (auto simp: updateYear_def)

lemma setScaleMode_upd:
  "\<exists>pr lh. setScaleMode C m st = st\<lparr>scaleMode := m, priceRange := pr, layerHeap := lh\<rparr>
      \<and> length lh = length (layerHeap st)"
  using restyleCached_upd[of C "st\<lparr>scaleMode := m\<rparr>"] by (auto simp: setScaleMode_def)

lemma applyPriceRange_eq:
  "applyPriceRange st sr = st\<lparr>priceRange := priceRange (applyPriceRange st sr)\<rparr>"
  by (auto simp: applyPriceRange_def split: option.splits)

lemma restyleCached_rendered:
  assumes "currentLayer st = Some l" and "currentGeoJSON st = Some g"
    and "l < length (layerHeap st)"
  shows "restyleCached C st =
      st\<lparr>priceRange := priceRange (applyPriceRange st (calculatePriceRange st g)),
         layerHeap := (layerHeap st)
           [l := (layerHeap st ! l)
              \<lparr>lfill := map (styleFeature C
                  (st\<lparr>priceRange := priceRange (applyPriceRange st (calculatePriceRange st g))\<rparr>))
                  (features (lgeo (layerHeap st ! l)))\<rparr>]\<rparr>"
proof -
  define R where "R = priceRange (applyPriceRange st (calculatePriceRange st g))"
  have a: "applyPriceRange st (calculatePriceRange st g) = st\<lparr>priceRange := R\<rparr>"
    unfolding R_def by (rule applyPriceRange_eq)
  show ?thesis
    using assms by (simp add: restyleCached_def Let_def a R_def[symmetric] setStyle_def)
qed

section \<open>The range of a list of prices\<close>

text \<open>
  The three percentile indices, in integer arithmetic. The script multiplies the length by
  the doubles nearest to 0.05, 0.95 and 0.5. The error this puts into a product stays
  below half the spacing of doubles at the product, so a product that is exactly an integer
  is rounded to that integer, and any other exact product is at least a twentieth away from
  the next integer: the floor of the double product is the floor of the exact one for every
  length an array can have.
\<close>

lemma percentileIndex_5: "percentileIndex n (1 / 20) = n div 20"
proof -
  have "(of_nat n :: rat) * (1 / 20) = of_nat n / of_nat 20" by simp
  then have "\<lfloor>(of_nat n :: rat) * (1 / 20)\<rfloor> = int (n div 20)"
    by (simp only: floor_divide_of_nat_eq)
  then show ?thesis by (simp add: percentileIndex_def)
qed

lemma percentileIndex_95: "percentileIndex n (19 / 20) = (n * 19) div 20"
proof -
  have "(of_nat n :: rat) * (19 / 20) = of_nat (n * 19) / of_nat 20" by simp
  then have "\<lfloor>(of_nat n :: rat) * (19 / 20)\<rfloor> = int ((n * 19) div 20)"
    by (simp only: floor_divide_of_nat_eq)
  then show ?thesis by (simp add: percentileIndex_def)
qed

lemma percentileIndex_50: "percentileIndex n (1 / 2) = n div 2"
proof -
  have "(of_nat n :: rat) * (1 / 2) = of_nat n / of_nat 2" by simp
  then have "\<lfloor>(of_nat n :: rat) * (1 / 2)\<rfloor> = int (n div 2)"
    by (simp only: floor_divide_of_nat_eq)
  then show ?thesis by (simp add: percentileIndex_def)
qed

text \<open>
  C4. For a non-empty list of prices, \<open>calculatePriceRange\<close> reports the elements of the
  ascending list at the indices \<open>floor (n * 0.05)\<close>, \<open>floor (n * 0.95)\<close> and
  \<open>floor (n * 0.5)\<close> as lower bound, upper bound and median, its first and last element
  as lowest and highest, and \<open>n\<close> as count; all indices are inside the list, and
  lowest \<open>\<le>\<close> lower bound \<open>\<le>\<close> median \<open>\<le>\<close> upper bound \<open>\<le>\<close> highest.
\<close>

theorem rangeOfPrices_nonempty:
  assumes "prices \<noteq> []"
  shows "min_s (rangeOfPrices prices) = sort prices ! nat \<lfloor>of_nat (length prices) * (5 / 100 :: rat)\<rfloor>
       \<and> max_s (rangeOfPrices prices) = sort prices ! nat \<lfloor>of_nat (length prices) * (95 / 100 :: rat)\<rfloor>
       \<and> median (rangeOfPrices prices) = sort prices ! nat \<lfloor>of_nat (length prices) * (5 / 10 :: rat)\<rfloor>
       \<and> nat \<lfloor>of_nat (length prices) * (95 / 100 :: rat)\<rfloor> < length prices
       \<and> lowest (rangeOfPrices prices) = hd (sort prices)
       \<and> highest (rangeOfPrices prices) = last (sort prices)
       \<and> count (rangeOfPrices prices) = length prices
       \<and> lowest (rangeOfPrices prices) \<le> min_s (rangeOfPrices prices)
       \<and> min_s (rangeOfPrices prices) \<le> median (rangeOfPrices prices)
       \<and> median (rangeOfPrices prices) \<le> max_s (rangeOfPrices prices)
       \<and> max_s (rangeOfPrices prices) \<le> highest (rangeOfPrices prices)"
proof -
  define s where "s = sort prices"
  define n where "n = length prices"
  have n: "0 < n" "length s = n" and srt: "sorted s"
    using assms by (auto simp: s_def n_def)
  have ne: "s \<noteq> []"
    using n by auto
  have idx: "n div 20 \<le> n div 2" "n div 2 \<le> (n * 19) div 20" "(n * 19) div 20 \<le> n - 1"
       "(n * 19) div 20 < n"
    using n(1) by linarith+
  have r: "rangeOfPrices prices =
      \<lparr>min_s = s ! (n div 20), max_s = s ! ((n * 19) div 20), median = s ! (n div 2),
       lowest = s ! 0, highest = s ! (n - 1), count = n\<rparr>"
    using assms
    by (simp add: rangeOfPrices_def Let_def percentileIndex_5 percentileIndex_95
        percentileIndex_50 s_def n_def)
  have pi: "nat \<lfloor>of_nat n * (5 / 100 :: rat)\<rfloor> = n div 20"
       "nat \<lfloor>of_nat n * (95 / 100 :: rat)\<rfloor> = (n * 19) div 20"
       "nat \<lfloor>of_nat n * (5 / 10 :: rat)\<rfloor> = n div 2"
    using percentileIndex_5[of n] percentileIndex_95[of n] percentileIndex_50[of n]
    by (simp_all add: percentileIndex_def)
  have o1: "s ! 0 \<le> s ! (n div 20)"
    using srt n idx by (intro sorted_nth_mono) auto
  have o2: "s ! (n div 20) \<le> s ! (n div 2)"
    using srt n idx by (intro sorted_nth_mono) auto
  have o3: "s ! (n div 2) \<le> s ! ((n * 19) div 20)"
    using srt n idx by (intro sorted_nth_mono) auto
  have o4: "s ! ((n * 19) div 20) \<le> s ! (n - 1)"
    using srt n idx by (intro sorted_nth_mono) auto
  have hl: "hd s = s ! 0" "last s = s ! (n - 1)"
    using ne n by (simp_all add: hd_conv_nth last_conv_nth)
  show ?thesis
    unfolding r s_def[symmetric] n_def[symmetric] pi
    using o1 o2 o3 o4 hl idx(4) by simp
qed

theorem rangeOfPrices_nonempty_witness:
  "[300000, 150000, 200000 :: rat] \<noteq> []
   \<and> rangeOfPrices [300000, 150000, 200000] =
       \<lparr>min_s = 150000, max_s = 300000, median = 200000, lowest = 150000,
        highest = 300000, count = 3\<rparr>
   \<and> lowest (rangeOfPrices [300000, 150000, 200000]) \<le> min_s (rangeOfPrices [300000, 150000, 200000])
   \<and> min_s (rangeOfPrices [300000, 150000, 200000]) \<le> median (rangeOfPrices [300000, 150000, 200000])
   \<and> median (rangeOfPrices [300000, 150000, 200000]) \<le> max_s (rangeOfPrices [300000, 150000, 200000])
   \<and> max_s (rangeOfPrices [300000, 150000, 200000]) \<le> highest (rangeOfPrices [300000, 150000, 200000])"
proof -
  have ne: "[300000, 150000, 200000 :: rat] \<noteq> []" by simp
  have v: "rangeOfPrices [300000, 150000, 200000] =
       \<lparr>min_s = 150000, max_s = 300000, median = 200000, lowest = 150000,
        highest = 300000, count = 3\<rparr>"
    by code_simp
  show ?thesis
    using ne v rangeOfPrices_nonempty[OF ne] by simp
qed

section \<open>Empty lists of prices\<close>

lemma fold_map_upd:
  "fold (\<lambda>y m. m(y \<mapsto> f y)) ys m0 y' = (if y' \<in> set ys then Some (f y') else m0 y')"
  by (induction ys arbitrary: m0) auto

lemma nationalPriceRange_update_same:
  "nationalPriceRange (st\<lparr>nationalPriceRange := m\<rparr>) = m"
  by simp

lemma national_table_at:
  "2000 \<le> y \<Longrightarrow> y \<le> 2025 \<Longrightarrow>
   nationalPriceRange (calculateNationalPriceRanges st) y = Some (nationalRangeOf (nationalPrices st y))"
proof -
  assume "2000 \<le> y" and "y \<le> 2025"
  then have "y \<in> set [2000..2025]"
    by (simp only: set_upto atLeastAtMost_iff)
  then show ?thesis
    unfolding calculateNationalPriceRanges_def
    by (simp only: nationalPriceRange_update_same fold_map_upd if_True)
qed

text \<open>
  C5 (as the code has it). \<open>calculatePriceRange\<close> on an empty list of prices returns the
  fixed fallback with lower bound 0, upper bound 1000000, median 0 and count 0. The national
  table has its own default: every year from 2000 to 2025 whose national list of prices is
  empty gets lower bound 50000 and upper bound 1000000.
\<close>

theorem empty_prices_defaults:
  "rangeOfPrices [] =
     \<lparr>min_s = 0, max_s = 1000000, median = 0, lowest = 0, highest = 0, count = 0\<rparr>
   \<and> (collectPrices st g = [] \<longrightarrow>
        calculatePriceRange st g =
          \<lparr>min_s = 0, max_s = 1000000, median = 0, lowest = 0, highest = 0, count = 0\<rparr>)
   \<and> (2000 \<le> y \<and> y \<le> 2025 \<and> nationalPrices st y = [] \<longrightarrow>
        nationalPriceRange (calculateNationalPriceRanges st) y =
          Some \<lparr>min_r = 50000, max_r = 1000000\<rparr>)"
  by (simp add: rangeOfPrices_def calculatePriceRange_def national_table_at nationalRangeOf_def)

theorem empty_prices_defaults_witness:
  "collectPrices initialState \<lparr>features = []\<rparr> = []
   \<and> calculatePriceRange initialState \<lparr>features = []\<rparr> =
        \<lparr>min_s = 0, max_s = 1000000, median = 0, lowest = 0, highest = 0, count = 0\<rparr>
   \<and> (2000::int) \<le> 2000 \<and> (2000::int) \<le> 2025 \<and> nationalPrices initialState 2000 = []
   \<and> nationalPriceRange (calculateNationalPriceRanges initialState) 2000 =
        Some \<lparr>min_r = 50000, max_r = 1000000\<rparr>"
proof -
  have a: "collectPrices initialState \<lparr>features = []\<rparr> = []"
    by (simp add: collectPrices_def)
  have b: "nationalPrices initialState 2000 = []"
    by (simp add: nationalPrices_def initialState_def)
  show ?thesis
    using a b empty_prices_defaults[of initialState "\<lparr>features = []\<rparr>" 2000] by simp
qed

text \<open>
  C5 (as stated) fails: with no price data the national list for 2000 is empty, and the
  national table holds lower bound 50000 for that year, whereas the fallback of
  \<open>calculatePriceRange\<close> has lower bound 0.
\<close>

theorem national_default_counterexample:
  "nationalPrices initialState 2000 = []
   \<and> nationalPriceRange (calculateNationalPriceRanges initialState) 2000 =
        Some \<lparr>min_r = 50000, max_r = 1000000\<rparr>
   \<and> min_s (rangeOfPrices (nationalPrices initialState 2000)) = 0"
proof -
  have b: "nationalPrices initialState 2000 = []"
    by (simp add: nationalPrices_def initialState_def)
  have c: "nationalPriceRange (calculateNationalPriceRanges initialState) 2000 =
        Some \<lparr>min_r = 50000, max_r = 1000000\<rparr>"
    by (simp add: national_table_at b nationalRangeOf_def)
  have d: "min_s (rangeOfPrices []) = 0"
    by (simp add: rangeOfPrices_def)
  show ?thesis using b c d by simp
qed

section \<open>Rounding to doubles\<close>

lemma ilog2_bounds:
  assumes "0 < a"
  shows "2 powi (ilog2 a) \<le> a" and "a < 2 powi (ilog2 a + 1)"
proof -
  have "2 powi (ilog2 a) \<le> a \<and> a < 2 powi (ilog2 a + 1)"
  proof (cases "1 \<le> a")
    case True
    define n where "n = \<lfloor>a\<rfloor>"
    have n: "0 < n" "of_int n \<le> a" "a < of_int n + 1"
      using True by (simp_all add: n_def) linarith
    define k where "k = nat (bitlen n - 1)"
    have b1: "1 \<le> bitlen n"
      using n(1) bitlen_eq_zero_iff[of n] bitlen_nonneg[of n] by linarith
    have e: "ilog2 a = int k" "ilog2 a + 1 = int (Suc k)" "nat (bitlen n) = Suc k"
      using True b1 by (simp_all add: ilog2_def n_def k_def)
    from bitlen_bounds[OF n(1)] have bb: "2 ^ k \<le> n" "n < 2 ^ Suc k"
      by (simp_all add: k_def[symmetric] e(3))
    have "(2::rat) ^ k = of_int (2 ^ k)" by simp
    also have "\<dots> \<le> of_int n" using bb(1) by (simp only: of_int_le_iff)
    finally have l: "(2::rat) ^ k \<le> a" using n(2) by linarith
    have "n + 1 \<le> 2 ^ Suc k" using bb(2) by linarith
    then have "(of_int (n + 1) :: rat) \<le> of_int (2 ^ Suc k)" by (simp only: of_int_le_iff)
    then have u: "a < (2::rat) ^ Suc k" using n(3) by simp
    have "(2::rat) powi (ilog2 a) = 2 ^ k"
      by (simp only: e(1) power_int_of_nat)
    moreover have "(2::rat) powi (ilog2 a + 1) = 2 ^ Suc k"
      by (simp only: e(2) power_int_of_nat)
    ultimately show ?thesis using l u by simp
  next
    case False
    define b where "b = 1 / a"
    have b: "1 < b" "a = 1 / b" using False assms by (simp_all add: b_def)
    define m where "m = \<lceil>b\<rceil> - 1"
    have m: "0 < m" "of_int m < b" "b \<le> of_int m + 1"
      using b(1) by (simp_all add: m_def) linarith+
    define k where "k = nat (bitlen m - 1)"
    have b1: "1 \<le> bitlen m"
      using m(1) bitlen_eq_zero_iff[of m] bitlen_nonneg[of m] by linarith
    have e: "ilog2 a = - int (Suc k)" "ilog2 a + 1 = - int k" "nat (bitlen m) = Suc k"
      using False b1 by (simp_all add: ilog2_def m_def b_def k_def)
    from bitlen_bounds[OF m(1)] have bb: "2 ^ k \<le> m" "m < 2 ^ Suc k"
      by (simp_all add: k_def[symmetric] e(3))
    have "m + 1 \<le> 2 ^ Suc k" using bb(2) by linarith
    then have "(of_int (m + 1) :: rat) \<le> of_int (2 ^ Suc k)" by (simp only: of_int_le_iff)
    then have u: "b \<le> (2::rat) ^ Suc k" using m(3) by simp
    have "(2::rat) ^ k = of_int (2 ^ k)" by simp
    also have "\<dots> \<le> of_int m" using bb(1) by (simp only: of_int_le_iff)
    finally have l: "(2::rat) ^ k < b" using m(2) by linarith
    have p1: "(2::rat) powi (ilog2 a) = 1 / 2 ^ Suc k"
      by (simp only: e(1) power_int_minus power_int_of_nat divide_inverse mult_1)
    have p2: "(2::rat) powi (ilog2 a + 1) = 1 / 2 ^ k"
      by (simp only: e(2) power_int_minus power_int_of_nat divide_inverse mult_1)
    have "1 / (2::rat) ^ Suc k \<le> 1 / b"
      using u b(1) by (intro divide_left_mono) auto
    moreover have "1 / b < 1 / (2::rat) ^ k"
      using l b(1) by (intro divide_strict_left_mono) auto
    ultimately show ?thesis
      unfolding p1 p2 using b(2) by simp
  qed
  then show "2 powi (ilog2 a) \<le> a" and "a < 2 powi (ilog2 a + 1)" by blast+
qed


lemma rne_of_int: "rne (of_int k) = k"
  by (simp add: rne_def)

lemma rne_bounds: "\<lfloor>x\<rfloor> \<le> rne x" "rne x \<le> \<lfloor>x\<rfloor> + 1"
  by (simp_all add: rne_def Let_def)

lemma rne_mono:
  assumes "x \<le> y"
  shows "rne x \<le> rne y"
proof (cases "\<lfloor>x\<rfloor> < \<lfloor>y\<rfloor>")
  case True
  then show ?thesis using rne_bounds(2)[of x] rne_bounds(1)[of y] by linarith
next
  case False
  then have f: "\<lfloor>x\<rfloor> = \<lfloor>y\<rfloor>" using floor_mono[OF assms] by linarith
  then have "x - of_int \<lfloor>x\<rfloor> \<le> y - of_int \<lfloor>y\<rfloor>" using assms by simp
  then show ?thesis
    unfolding rne_def Let_def f by auto
qed


text \<open>The rounded magnitude stays inside the binade of the exact one, is monotone, and
  leaves small integers unchanged.\<close>

lemma ulp_pos: "0 < ulp g a"
  by (simp add: ulp_def)

lemma rne_nonneg: "0 \<le> x \<Longrightarrow> 0 \<le> rne x"
  using rne_bounds(1)[of x] by (simp add: order_trans[of 0 "\<lfloor>x\<rfloor>"])

lemma round_mag_nonneg: "0 < a \<Longrightarrow> 0 \<le> round_mag g a"
  using ulp_pos[of g a] by (simp add: round_mag_def rne_nonneg)

lemma two_powi_split: "(2::rat) powi e = 2 ^ 52 * 2 powi (e - 52)"
  using power_int_add[of "2::rat" 52 "e - 52"] by simp

lemma two_powi_split': "(2::rat) powi (e + 1) = 2 ^ 53 * 2 powi (e - 52)"
  using power_int_add[of "2::rat" 53 "e - 52"] by (simp add: add.commute)

lemma round_mag_normal:
  assumes "0 < a" and "g \<longrightarrow> - 1022 \<le> ilog2 a"
  shows "2 powi (ilog2 a) \<le> round_mag g a" and "round_mag g a \<le> 2 powi (ilog2 a + 1)"
proof -
  define q where "q = (2::rat) powi (ilog2 a - 52)"
  have q: "0 < q" by (simp add: q_def)
  have u: "ulp g a = q"
    using assms(2) by (auto simp: ulp_def q_def max_def)
  have lo: "2 ^ 52 * q \<le> a" and hi: "a < 2 ^ 53 * q"
    using ilog2_bounds[OF assms(1)]
    by (simp_all add: two_powi_split[of "ilog2 a"] two_powi_split'[of "ilog2 a"] q_def)
  have d: "of_int (2 ^ 52) \<le> a / q" "a / q \<le> of_int (2 ^ 53)"
    using lo hi q by (simp_all add: pos_le_divide_eq pos_divide_le_eq)
  have "rne (of_int (2 ^ 52)) \<le> rne (a / q)" "rne (a / q) \<le> rne (of_int (2 ^ 53))"
    using rne_mono[OF d(1)] rne_mono[OF d(2)] by blast+
  then have m: "2 ^ 52 \<le> rne (a / q)" "rne (a / q) \<le> 2 ^ 53"
    by (simp_all only: rne_of_int)
  have "(of_int (2 ^ 52) :: rat) \<le> of_int (rne (a / q))"
    "(of_int (rne (a / q)) :: rat) \<le> of_int (2 ^ 53)"
    using m by (simp_all only: of_int_le_iff)
  then have m': "(2::rat) ^ 52 \<le> of_int (rne (a / q))" "(of_int (rne (a / q)) :: rat) \<le> 2 ^ 53"
    by simp_all
  have "(2::rat) ^ 52 * q \<le> of_int (rne (a / q)) * q"
    using m'(1) q by (intro mult_right_mono) simp_all
  moreover have "of_int (rne (a / q)) * q \<le> (2::rat) ^ 53 * q"
    using m'(2) q by (intro mult_right_mono) simp_all
  ultimately show "2 powi (ilog2 a) \<le> round_mag g a" and "round_mag g a \<le> 2 powi (ilog2 a + 1)"
    by (simp_all add: round_mag_def u two_powi_split[of "ilog2 a"] two_powi_split'[of "ilog2 a"]
        q_def[symmetric])
qed



lemma round_mag_pos: "0 < a \<Longrightarrow> 0 < round_mag False a"
  using round_mag_normal(1)[of a False] zero_less_power_int[of "2::rat" "ilog2 a"]
  by (simp del: zero_less_power_int)

lemma round_mag_nat:
  assumes "0 < n" and "n < 2 ^ 53"
  shows "round_mag g (of_nat n) = of_nat n"
proof -
  define a :: rat where "a = of_nat n"
  have "(of_nat n :: rat) < of_nat (2 ^ 53)" using assms(2) by (simp only: of_nat_less_iff)
  then have a: "0 < a" "1 \<le> a" "a < 2 ^ 53" using assms by (simp_all add: a_def)
  define e where "e = ilog2 a"
  have "(2::rat) powi 0 < 2 powi (e + 1)"
    using ilog2_bounds(2)[OF a(1)] a(2) by (simp add: e_def)
  then have e0: "0 \<le> e"
    using power_int_increasing[of "e + 1" 0 "2::rat"] by force
  have "(2::rat) powi e < 2 powi 53"
    using ilog2_bounds(1)[OF a(1)] a(3) by (simp add: e_def)
  then have e1: "e \<le> 52"
    using power_int_increasing[of 53 e "2::rat"] by force
  define k where "k = nat (52 - e)"
  have u: "ulp g a = 1 / 2 ^ k"
  proof -
    have "e - 52 = - int k" using e1 by (simp add: k_def)
    then have "(2::rat) powi (e - 52) = 1 / 2 ^ k"
      by (simp only: power_int_minus power_int_of_nat divide_inverse mult_1)
    then show ?thesis using e0 by (simp add: ulp_def e_def[symmetric] max_def)
  qed
  have "a / ulp g a = of_int (int n * 2 ^ k)"
    by (simp add: u) (simp add: a_def)
  then have "rne (a / ulp g a) = int n * 2 ^ k"
    by (simp only: rne_of_int)
  then show ?thesis
    by (simp add: round_mag_def u a_def[symmetric])
qed




lemma to_double_nonpos:
  assumes "x \<le> 0"
  shows "to_double g x = NegInf \<or> (\<exists>r\<le>0. to_double g x = Fin r)"
  using assms round_mag_nonneg[of "- x" g] by (auto simp: to_double_def)

lemma to_double_pos:
  assumes "0 < x"
  shows "to_double False x = PosInf \<or> (\<exists>r>0. to_double False x = Fin r)"
  using assms round_mag_pos[of x] by (auto simp: to_double_def)

lemma to_double_nat:
  assumes "n < 2 ^ 53"
  shows "to_double g (of_nat n) = Fin (of_nat n)"
proof (cases "n = 0")
  case True
  then show ?thesis by (simp add: to_double_def)
next
  case False
  then have n: "0 < n" by simp
  have "(of_nat n :: rat) < of_nat (2 ^ 53)" using assms by (simp only: of_nat_less_iff)
  also have "\<dots> < 2 ^ 1024" by simp
  finally have "\<not> (2::rat) ^ 1024 \<le> of_nat n" by simp
  then show ?thesis
    using n by (simp add: to_double_def round_mag_nat[OF n assms])
qed




lemma to_double_neg:
  assumes "x < 0"
  shows "to_double False x = NegInf \<or> (\<exists>r<0. to_double False x = Fin r)"
  using assms round_mag_pos[of "- x"] by (auto simp: to_double_def)

section \<open>The colour scale\<close>












lemma array_get_nat: "i < length xs \<Longrightarrow> array_get xs (Fin (of_nat i)) = Some (xs ! i)"
  by simp


text \<open>A range whose two bounds are the same number.\<close>

lemma degenerate_range_buckets:
  assumes "min_r (priceRange st) = max_r (priceRange st)" and "C \<noteq> []" and "0 < p"
  shows "(max_r (priceRange st) < p \<longrightarrow>
            bucketIndex C st p = Fin (of_nat (length C - 1)) \<and> getColor C st p = Some (last C))
       \<and> (p < max_r (priceRange st) \<longrightarrow>
            bucketIndex C st p = Fin 0 \<and> getColor C st p = Some (hd C))"
proof -
  have n: "0 < length C" using assms(2) by simp
  have den: "js_sub (max_r (priceRange st)) (min_r (priceRange st)) = Fin 0"
    using assms(1) by (simp add: js_sub_def to_double_def)
  have up: "bucketIndex C st p = Fin (of_nat (length C - 1))" if "max_r (priceRange st) < p"
  proof -
    have "js_div (js_sub p (min_r (priceRange st))) (Fin 0) = PosInf"
      using to_double_pos[of "p - min_r (priceRange st)"] that assms(1)
      by (auto simp: js_sub_def)
    then show ?thesis
      using n by (simp add: bucketIndex_def den)
  qed
  have dn: "bucketIndex C st p = Fin 0" if "p < max_r (priceRange st)"
  proof -
    have "js_div (js_sub p (min_r (priceRange st))) (Fin 0) = NegInf"
      using to_double_neg[of "p - min_r (priceRange st)"] that assms(1)
      by (auto simp: js_sub_def)
    then show ?thesis
      using n by (simp add: bucketIndex_def den)
  qed
  have a0: "array_get C (Fin 0) = Some (hd C)"
    using n by (simp add: hd_conv_nth)
  have al: "array_get C (Fin (of_nat (length C - 1))) = Some (last C)"
    using n assms(2) array_get_nat[of "length C - 1" C] by (simp add: last_conv_nth)
  show ?thesis
    using up dn a0 al assms(3) by (simp add: getColor_def)
qed

text \<open>
  C3 (as the code has it). When the lower and the upper bound of the range are the same
  number, \<open>getColor\<close> raises nothing and its result depends on the price: a positive price
  above the bound gets the last bucket of the palette, a positive price below it gets
  bucket 0.
\<close>

theorem getColor_degenerate_range:
  assumes "min_r (priceRange st) = max_r (priceRange st)" and "C \<noteq> []" and "0 < p"
  shows "(max_r (priceRange st) < p \<longrightarrow>
            bucketIndex C st p = Fin (of_nat (length C - 1)) \<and> getColor C st p = Some (last C))
       \<and> (p < max_r (priceRange st) \<longrightarrow>
            bucketIndex C st p = Fin 0 \<and> getColor C st p = Some (hd C))"
  using assms by (rule degenerate_range_buckets)

text \<open>A price equal to the common bound divides zero by zero: the index is \<open>NaN\<close> and
  the palette lookup yields \<open>undefined\<close>.\<close>

lemma getColor_at_degenerate_bound:
  "min_r (priceRange st) = max_r (priceRange st) \<Longrightarrow> p = max_r (priceRange st) \<Longrightarrow> p \<noteq> 0
   \<Longrightarrow> bucketIndex C st p = NaN \<and> getColor C st p = None"
  by (simp add: getColor_def bucketIndex_def js_sub_def to_double_def)



theorem getColor_degenerate_range_witness:
  "min_r (priceRange (initialState\<lparr>priceRange := \<lparr>min_r = 100, max_r = 100\<rparr>\<rparr>))
     = max_r (priceRange (initialState\<lparr>priceRange := \<lparr>min_r = 100, max_r = 100\<rparr>\<rparr>))
   \<and> [''#ffffb2'', ''#e31a1c''] \<noteq> [] \<and> (0::rat) < 200
   \<and> max_r (priceRange (initialState\<lparr>priceRange := \<lparr>min_r = 100, max_r = 100\<rparr>\<rparr>)) < 200
   \<and> getColor [''#ffffb2'', ''#e31a1c'']
        (initialState\<lparr>priceRange := \<lparr>min_r = 100, max_r = 100\<rparr>\<rparr>) 200 = Some ''#e31a1c''"
proof -
  let ?C = "[''#ffffb2'', ''#e31a1c'']"
  let ?st = "initialState\<lparr>priceRange := \<lparr>min_r = 100, max_r = 100\<rparr>\<rparr>"
  have h1: "min_r (priceRange ?st) = max_r (priceRange ?st)" by simp
  have h2: "?C \<noteq> []" by simp
  have h3: "(0::rat) < 200" by simp
  have h4: "max_r (priceRange ?st) < 200" by simp
  from getColor_degenerate_range[OF h1 h2 h3] h4
  have "getColor ?C ?st 200 = Some (last ?C)" by blast
  then have "getColor ?C ?st 200 = Some ''#e31a1c''" by simp
  then show ?thesis using h1 h2 h3 h4 by blast
qed

text \<open>
  C3 (as stated) fails: for the range from 100 to 100 the prices 50 and 200 get different
  colours.
\<close>

theorem getColor_degenerate_range_counterexample:
  "getColor [''#ffffb2'', ''#e31a1c''] (initialState\<lparr>priceRange := \<lparr>min_r = 100, max_r = 100\<rparr>\<rparr>) 50
   \<noteq> getColor [''#ffffb2'', ''#e31a1c''] (initialState\<lparr>priceRange := \<lparr>min_r = 100, max_r = 100\<rparr>\<rparr>) 200"
proof -
  let ?C = "[''#ffffb2'', ''#e31a1c'']"
  let ?st = "initialState\<lparr>priceRange := \<lparr>min_r = 100, max_r = 100\<rparr>\<rparr>"
  have h1: "min_r (priceRange ?st) = max_r (priceRange ?st)" by simp
  have h2: "?C \<noteq> []" by simp
  have "getColor ?C ?st 200 = Some (last ?C)"
    using degenerate_range_buckets[OF h1 h2, of 200] by simp
  moreover have "getColor ?C ?st 50 = Some (hd ?C)"
    using degenerate_range_buckets[OF h1 h2, of 50] by simp
  ultimately show ?thesis by simp
qed






section \<open>What selecting a region changes\<close>

lemma renderState_begin_frame:
  "currentGeoJSON (renderState_begin S r st) = currentGeoJSON st"
  "layerHeap (renderState_begin S r st) = layerHeap st"
  "currentYear (renderState_begin S r st) = currentYear st"
  "scaleMode (renderState_begin S r st) = scaleMode st"
  "zhviData (renderState_begin S r st) = zhviData st"
  "nationalPriceRange (renderState_begin S r st) = nationalPriceRange st"
  "priceRange (renderState_begin S r st) = priceRange st"
  "isPlaying (renderState_begin S r st) = isPlaying st"
  "playInterval (renderState_begin S r st) = playInterval st"
  "intervals (renderState_begin S r st) = intervals st"
  "nextInterval (renderState_begin S r st) = nextInterval st"
  "consoleErrors (renderState_begin S r st) = consoleErrors st"
  by (simp_all add: renderState_begin_def loadStateGeoJSON_begin_def showLoading_def
      removeLayer_def Let_def split: option.splits)

lemma renderState_begin_sent:
  assumes "S r = Some info" and "r \<noteq> []"
  shows "currentLayer (renderState_begin S r st) = None"
    and "mapLayers (renderState_begin S r st) =
           (case currentLayer st of Some l \<Rightarrow> removeAll l (mapLayers st) | None \<Rightarrow> mapLayers st)"
    and "fetchLog (renderState_begin S r st) = fetchLog st @ [state_file info]"
    and "pending (renderState_begin S r st) = pending st @ [r]"
    and "currentState (renderState_begin S r st) = Some r"
  using assms
  by (simp_all add: renderState_begin_def loadStateGeoJSON_begin_def showLoading_def
      removeLayer_def Let_def split: option.splits)

lemma renderState_resume_frame:
  "currentYear (renderState_resume C r res st) = currentYear st"
  "scaleMode (renderState_resume C r res st) = scaleMode st"
  "zhviData (renderState_resume C r res st) = zhviData st"
  "nationalPriceRange (renderState_resume C r res st) = nationalPriceRange st"
  "isPlaying (renderState_resume C r res st) = isPlaying st"
  "playInterval (renderState_resume C r res st) = playInterval st"
  "intervals (renderState_resume C r res st) = intervals st"
  "nextInterval (renderState_resume C r res st) = nextInterval st"
  "fetchLog (renderState_resume C r res st) = fetchLog st"
  "pending (renderState_resume C r res st) = pending st"
  "currentState (renderState_resume C r res st) = currentState st"
  by (simp_all add: renderState_resume_def loadStateGeoJSON_resume_def showLoading_def
      L_geoJSON_def applyPriceRange_def setStyle_def addTo_def Let_def split: option.splits)

lemma renderState_resume_failed:
  "renderState_resume C r None st =
     st\<lparr>consoleErrors := consoleErrors st + 1, loadingVisible := False\<rparr>"
  by (simp add: renderState_resume_def loadStateGeoJSON_resume_def showLoading_def)

text \<open>The fields each computation reads.\<close>

lemma styleFeature_cong:
  "priceRange a = priceRange b \<Longrightarrow> zhviData a = zhviData b \<Longrightarrow> currentYear a = currentYear b
   \<Longrightarrow> styleFeature C a = styleFeature C b"
  by (rule ext) (simp add: styleFeature_def getColor_def bucketIndex_def Let_def
      cong: option.case_cong if_cong)

lemma calculatePriceRange_cong:
  "zhviData a = zhviData b \<Longrightarrow> currentYear a = currentYear b
   \<Longrightarrow> calculatePriceRange a g = calculatePriceRange b g"
  by (simp add: calculatePriceRange_def collectPrices_def featurePrices_def
      cong: option.case_cong map_cong)

lemma applyPriceRange_cong:
  "scaleMode a = scaleMode b \<Longrightarrow> nationalPriceRange a = nationalPriceRange b
   \<Longrightarrow> currentYear a = currentYear b
   \<Longrightarrow> priceRange (applyPriceRange a sr) = priceRange (applyPriceRange b sr)"
  by (simp add: applyPriceRange_def split: option.splits)

lemma applyPriceRange_fields:
  "zhviData (applyPriceRange st sr) = zhviData st"
  "currentYear (applyPriceRange st sr) = currentYear st"
  "layerHeap (applyPriceRange st sr) = layerHeap st"
  using applyPriceRange_upd[of st sr] by auto

lemma setStyle_last:
  assumes "layerHeap st = h @ [\<lparr>lgeo = g, lfill = old\<rparr>]"
  shows "setStyle C (length h) st =
           st\<lparr>layerHeap := h @ [\<lparr>lgeo = g, lfill = map (styleFeature C st) (features g)\<rparr>]\<rparr>"
  using assms by (simp add: setStyle_def)

text \<open>The state after a successful response, step by step.\<close>

lemma renderState_resume_loaded:
  fixes st :: appState and g :: geojson and C :: "string list"
  defines "l \<equiv> length (layerHeap st)"
  defines "st4 \<equiv> st\<lparr>loadingVisible := False, currentGeoJSON := Some g,
      layerHeap := layerHeap st @
        [\<lparr>lgeo = g, lfill = map (styleFeature C (st\<lparr>loadingVisible := False, currentGeoJSON := Some g\<rparr>))
                                 (features g)\<rparr>],
      currentLayer := Some l\<rparr>"
  defines "st5 \<equiv> applyPriceRange st4 (calculatePriceRange st4 g)"
  shows "renderState_resume C r (Some g) st =
           (addTo l (st5\<lparr>layerHeap := layerHeap st @
              [\<lparr>lgeo = g, lfill = map (styleFeature C st5) (features g)\<rparr>]\<rparr>))\<lparr>mapView := Some r\<rparr>"
proof -
  have h5: "layerHeap st5 = layerHeap st @
        [\<lparr>lgeo = g, lfill = map (styleFeature C (st\<lparr>loadingVisible := False, currentGeoJSON := Some g\<rparr>))
                                 (features g)\<rparr>]"
    by (simp add: st5_def applyPriceRange_fields st4_def)
  have "renderState_resume C r (Some g) st = (addTo l (setStyle C l st5))\<lparr>mapView := Some r\<rparr>"
    by (simp add: renderState_resume_def loadStateGeoJSON_resume_def showLoading_def
        L_geoJSON_def Let_def st5_def st4_def l_def)
  also have "setStyle C l st5 = st5\<lparr>layerHeap := layerHeap st @
              [\<lparr>lgeo = g, lfill = map (styleFeature C st5) (features g)\<rparr>]\<rparr>"
    unfolding l_def by (rule setStyle_last[OF h5])
  finally show ?thesis .
qed

section \<open>Runs of events\<close>

lemma run_Nil: "run S C [] st = st"
  by (simp add: run_def)

lemma run_Cons: "run S C (e # evs) st = run S C evs (step S C e st)"
  by (simp add: run_def)

lemma step_Select: "step S C (Select r) st = renderState_begin S r st"
  by (simp add: step_def)

lemma step_FetchDone:
  "r \<in> set (pending st) \<Longrightarrow>
   step S C (FetchDone r res) st = renderState_resume C r res (st\<lparr>pending := remove1 r (pending st)\<rparr>)"
  by (simp add: step_def)

lemma addTo_fields:
  "l \<in> set (mapLayers (addTo l st))"
  "set (mapLayers st) \<subseteq> set (mapLayers (addTo l st))"
  "currentGeoJSON (addTo l st) = currentGeoJSON st"
  "currentLayer (addTo l st) = currentLayer st"
  "layerHeap (addTo l st) = layerHeap st"
  "priceRange (addTo l st) = priceRange st"
  "zhviData (addTo l st) = zhviData st"
  "currentYear (addTo l st) = currentYear st"
  by (auto simp: addTo_def)

lemma applyPriceRange_more_fields:
  "currentGeoJSON (applyPriceRange st sr) = currentGeoJSON st"
  "currentLayer (applyPriceRange st sr) = currentLayer st"
  "mapLayers (applyPriceRange st sr) = mapLayers st"
  using applyPriceRange_upd[of st sr] by auto

lemma renderState_resume_done:
  "currentGeoJSON (renderState_resume C r (Some g) st) = Some g"
  "currentLayer (renderState_resume C r (Some g) st) = Some (length (layerHeap st))"
  "layerHeap (renderState_resume C r (Some g) st) =
     layerHeap st @ [\<lparr>lgeo = g, lfill = map (styleFeature C (renderState_resume C r (Some g) st)) (features g)\<rparr>]"
  "length (layerHeap st) \<in> set (mapLayers (renderState_resume C r (Some g) st))"
  "set (mapLayers st) \<subseteq> set (mapLayers (renderState_resume C r (Some g) st))"
  "priceRange (renderState_resume C r (Some g) st) =
     priceRange (applyPriceRange st (calculatePriceRange st g))"
  "mapView (renderState_resume C r (Some g) st) = Some r"
proof -
  define st4 where "st4 = st\<lparr>loadingVisible := False, currentGeoJSON := Some g,
      layerHeap := layerHeap st @
        [\<lparr>lgeo = g, lfill = map (styleFeature C (st\<lparr>loadingVisible := False, currentGeoJSON := Some g\<rparr>))
                                 (features g)\<rparr>],
      currentLayer := Some (length (layerHeap st))\<rparr>"
  define st5 where "st5 = applyPriceRange st4 (calculatePriceRange st4 g)"
  define st6 where "st6 = st5\<lparr>layerHeap := layerHeap st @
              [\<lparr>lgeo = g, lfill = map (styleFeature C st5) (features g)\<rparr>]\<rparr>"
  have res: "renderState_resume C r (Some g) st = (addTo (length (layerHeap st)) st6)\<lparr>mapView := Some r\<rparr>"
    unfolding st6_def st5_def st4_def by (rule renderState_resume_loaded)
  show "currentGeoJSON (renderState_resume C r (Some g) st) = Some g"
    by (simp add: res addTo_fields st6_def st5_def applyPriceRange_more_fields st4_def)
  show "currentLayer (renderState_resume C r (Some g) st) = Some (length (layerHeap st))"
    by (simp add: res addTo_fields st6_def st5_def applyPriceRange_more_fields st4_def)
  show "length (layerHeap st) \<in> set (mapLayers (renderState_resume C r (Some g) st))"
    by (simp add: res addTo_fields)
  have "set (mapLayers st) = set (mapLayers st6)"
    by (simp add: st6_def st5_def applyPriceRange_more_fields st4_def)
  then show "set (mapLayers st) \<subseteq> set (mapLayers (renderState_resume C r (Some g) st))"
    using addTo_fields(2)[of st6 "length (layerHeap st)"] by (simp add: res)
  have "calculatePriceRange st4 g = calculatePriceRange st g"
    by (rule calculatePriceRange_cong) (simp_all add: st4_def)
  moreover have "priceRange (applyPriceRange st4 sr) = priceRange (applyPriceRange st sr)" for sr
    by (rule applyPriceRange_cong) (simp_all add: st4_def)
  ultimately show "priceRange (renderState_resume C r (Some g) st) =
     priceRange (applyPriceRange st (calculatePriceRange st g))"
    by (simp add: res addTo_fields st6_def st5_def)
  have "styleFeature C (renderState_resume C r (Some g) st) = styleFeature C st5"
    by (rule styleFeature_cong) (simp_all add: res addTo_fields st6_def)
  then show "layerHeap (renderState_resume C r (Some g) st) =
     layerHeap st @ [\<lparr>lgeo = g, lfill = map (styleFeature C (renderState_resume C r (Some g) st)) (features g)\<rparr>]"
    by (simp add: res addTo_fields st6_def)
  show "mapView (renderState_resume C r (Some g) st) = Some r"
    by (simp add: res)
qed

lemma step_ChangeYear: "step S C (ChangeYear y) st = updateYear C y st"
  by (simp add: step_def)

lemma step_ChangeScale: "step S C (ChangeScale m) st = setScaleMode C m st"
  by (simp add: step_def)

section \<open>A failed geometry request\<close>

text \<open>
  C2 (as the code has it). When a region is selected and its geometry request fails,
  nothing is thrown: the error is written to the console, the loading overlay is hidden and
  \<open>renderState\<close> returns normally. The layer that was displayed before the call has been
  taken off the map and \<open>currentLayer\<close> is empty, because \<open>renderState\<close> removes the layer
  before it sends the request; the cached geometry \<open>currentGeoJSON\<close> and the layer objects
  themselves are unchanged.
\<close>

theorem failed_fetch_clears_layer:
  assumes "S r = Some info" and "r \<noteq> []"
  shows "currentLayer (run S C [Select r, FetchDone r None] st) = None
    \<and> mapLayers (run S C [Select r, FetchDone r None] st) =
        (case currentLayer st of Some l \<Rightarrow> removeAll l (mapLayers st) | None \<Rightarrow> mapLayers st)
    \<and> currentGeoJSON (run S C [Select r, FetchDone r None] st) = currentGeoJSON st
    \<and> layerHeap (run S C [Select r, FetchDone r None] st) = layerHeap st
    \<and> consoleErrors (run S C [Select r, FetchDone r None] st) = consoleErrors st + 1
    \<and> loadingVisible (run S C [Select r, FetchDone r None] st) = False"
proof -
  define b where "b = renderState_begin S r st"
  note sent = renderState_begin_sent[of S r info st, OF assms]
  have p: "r \<in> set (pending b)"
    by (simp add: b_def sent)
  have "run S C [Select r, FetchDone r None] st =
      b\<lparr>pending := remove1 r (pending b), consoleErrors := consoleErrors b + 1,
        loadingVisible := False\<rparr>"
    by (simp add: run_Cons run_Nil step_Select step_FetchDone[OF p] b_def[symmetric]
        renderState_resume_failed)
  then show ?thesis
    by (simp add: b_def sent renderState_begin_frame)
qed


text \<open>The definitions unfolded to evaluate a run on concrete input.\<close>

lemmas run_defs = run_def step_def renderState_begin_def renderState_resume_def
  loadStateGeoJSON_begin_def loadStateGeoJSON_resume_def showLoading_def removeLayer_def
  addTo_def L_geoJSON_def setStyle_def applyPriceRange_def Let_def
  demoSTATES_def demoState_def initialState_def

theorem failed_fetch_clears_layer_witness:
  "demoSTATES ''CA'' =
      Some \<lparr>state_name = ''California'', state_file = ''ca_california_zip_codes_geo.min.json''\<rparr>
   \<and> ''CA'' \<noteq> []
   \<and> currentLayer (run demoSTATES demoCOLORS [Select ''WI'', FetchDone ''WI'' (Some demoWI)] demoState)
       = Some 0
   \<and> currentLayer (run demoSTATES demoCOLORS [Select ''CA'', FetchDone ''CA'' None]
        (run demoSTATES demoCOLORS [Select ''WI'', FetchDone ''WI'' (Some demoWI)] demoState)) = None
   \<and> currentGeoJSON (run demoSTATES demoCOLORS [Select ''CA'', FetchDone ''CA'' None]
        (run demoSTATES demoCOLORS [Select ''WI'', FetchDone ''WI'' (Some demoWI)] demoState))
       = Some demoWI"
proof -
  let ?s1 = "run demoSTATES demoCOLORS [Select ''WI'', FetchDone ''WI'' (Some demoWI)] demoState"
  have h1: "demoSTATES ''CA'' =
      Some \<lparr>state_name = ''California'', state_file = ''ca_california_zip_codes_geo.min.json''\<rparr>"
    by (simp add: demoSTATES_def)
  have h2: "''CA'' \<noteq> []" by simp
  have a: "currentLayer ?s1 = Some 0" by (simp add: run_defs)
  have b: "currentGeoJSON ?s1 = Some demoWI" by (simp add: run_defs)
  show ?thesis
    using h1 h2 a b
      failed_fetch_clears_layer[where S=demoSTATES and r="''CA''" and C=demoCOLORS and st="?s1", OF h1 h2]
    by simp
qed

text \<open>
  C2 (as stated) fails: with Wisconsin rendered (layer 0 on the map), selecting California
  and having its request fail leaves no current layer and an empty map.
\<close>

theorem failed_fetch_counterexample:
  "currentLayer (run demoSTATES demoCOLORS [Select ''WI'', FetchDone ''WI'' (Some demoWI)] demoState)
     = Some 0
   \<and> mapLayers (run demoSTATES demoCOLORS [Select ''WI'', FetchDone ''WI'' (Some demoWI)] demoState)
     = [0]
   \<and> currentLayer (run demoSTATES demoCOLORS [Select ''CA'', FetchDone ''CA'' None]
        (run demoSTATES demoCOLORS [Select ''WI'', FetchDone ''WI'' (Some demoWI)] demoState)) = None
   \<and> mapLayers (run demoSTATES demoCOLORS [Select ''CA'', FetchDone ''CA'' None]
        (run demoSTATES demoCOLORS [Select ''WI'', FetchDone ''WI'' (Some demoWI)] demoState)) = []"
  by (simp add: run_defs)

section \<open>Two selections in flight\<close>

lemma step_FetchDone_loaded:
  assumes "r \<in> set (pending st)"
  shows "currentGeoJSON (step S C (FetchDone r (Some g)) st) = Some g"
    and "currentLayer (step S C (FetchDone r (Some g)) st) = Some (length (layerHeap st))"
    and "map lgeo (layerHeap (step S C (FetchDone r (Some g)) st)) = map lgeo (layerHeap st) @ [g]"
    and "length (layerHeap st) \<in> set (mapLayers (step S C (FetchDone r (Some g)) st))"
    and "set (mapLayers st) \<subseteq> set (mapLayers (step S C (FetchDone r (Some g)) st))"
    and "pending (step S C (FetchDone r (Some g)) st) = remove1 r (pending st)"
    and "currentState (step S C (FetchDone r (Some g)) st) = currentState st"
proof -
  let ?p = "st\<lparr>pending := remove1 r (pending st)\<rparr>"
  have e: "step S C (FetchDone r (Some g)) st = renderState_resume C r (Some g) ?p"
    by (rule step_FetchDone[OF assms])
  show "currentGeoJSON (step S C (FetchDone r (Some g)) st) = Some g"
    by (simp only: e renderState_resume_done)
  show "currentLayer (step S C (FetchDone r (Some g)) st) = Some (length (layerHeap st))"
    by (simp add: e renderState_resume_done)
  show "map lgeo (layerHeap (step S C (FetchDone r (Some g)) st)) = map lgeo (layerHeap st) @ [g]"
    unfolding e by (subst renderState_resume_done(3)) simp
  show "length (layerHeap st) \<in> set (mapLayers (step S C (FetchDone r (Some g)) st))"
    using renderState_resume_done(4)[where st="?p" and C=C and r=r and g=g] by (simp add: e)
  show "set (mapLayers st) \<subseteq> set (mapLayers (step S C (FetchDone r (Some g)) st))"
    using renderState_resume_done(5)[where st="?p" and C=C and r=r and g=g] by (simp add: e)
  show "pending (step S C (FetchDone r (Some g)) st) = remove1 r (pending st)"
    by (simp add: e renderState_resume_frame)
  show "currentState (step S C (FetchDone r (Some g)) st) = currentState st"
    by (simp add: e renderState_resume_frame)
qed

lemma two_responses:
  assumes "ra \<in> set (pending b)" and "rb \<in> set (pending b)" and "ra \<noteq> rb"
  shows "currentState (run S C [FetchDone ra (Some ga), FetchDone rb (Some gb)] b) = currentState b
    \<and> currentGeoJSON (run S C [FetchDone ra (Some ga), FetchDone rb (Some gb)] b) = Some gb
    \<and> currentLayer (run S C [FetchDone ra (Some ga), FetchDone rb (Some gb)] b)
        = Some (length (layerHeap b) + 1)
    \<and> map lgeo (layerHeap (run S C [FetchDone ra (Some ga), FetchDone rb (Some gb)] b))
        = map lgeo (layerHeap b) @ [ga, gb]
    \<and> length (layerHeap b)
        \<in> set (mapLayers (run S C [FetchDone ra (Some ga), FetchDone rb (Some gb)] b))
    \<and> length (layerHeap b) + 1
        \<in> set (mapLayers (run S C [FetchDone ra (Some ga), FetchDone rb (Some gb)] b))"
proof -
  define a where "a = step S C (FetchDone ra (Some ga)) b"
  note A = step_FetchDone_loaded[OF assms(1), of S C ga, folded a_def]
  have pb: "rb \<in> set (pending a)"
    using assms(2,3) by (simp add: A(6))
  note B = step_FetchDone_loaded[OF pb, of S C gb]
  have len: "length (layerHeap a) = length (layerHeap b) + 1"
    using arg_cong[OF A(3), of length] by simp
  have r: "run S C [FetchDone ra (Some ga), FetchDone rb (Some gb)] b
            = step S C (FetchDone rb (Some gb)) a"
    by (simp add: run_Cons run_Nil a_def)
  show ?thesis
    unfolding r using A B len by auto
qed

lemma two_selects_two_responses:
  assumes "S r1 = Some i1" and "S r2 = Some i2" and "r1 \<noteq> []" and "r2 \<noteq> []" and "r1 \<noteq> r2"
  shows "currentState (run S C [Select r1, Select r2, FetchDone r1 (Some g1), FetchDone r2 (Some g2)] st)
           = Some r2
    \<and> currentGeoJSON (run S C [Select r1, Select r2, FetchDone r1 (Some g1), FetchDone r2 (Some g2)] st)
           = Some g2
    \<and> currentLayer (run S C [Select r1, Select r2, FetchDone r1 (Some g1), FetchDone r2 (Some g2)] st)
           = Some (length (layerHeap st) + 1)
    \<and> map lgeo (layerHeap (run S C [Select r1, Select r2, FetchDone r1 (Some g1), FetchDone r2 (Some g2)] st))
           = map lgeo (layerHeap st) @ [g1, g2]
    \<and> currentState (run S C [Select r1, Select r2, FetchDone r2 (Some g2), FetchDone r1 (Some g1)] st)
           = Some r2
    \<and> currentGeoJSON (run S C [Select r1, Select r2, FetchDone r2 (Some g2), FetchDone r1 (Some g1)] st)
           = Some g1
    \<and> currentLayer (run S C [Select r1, Select r2, FetchDone r2 (Some g2), FetchDone r1 (Some g1)] st)
           = Some (length (layerHeap st) + 1)
    \<and> map lgeo (layerHeap (run S C [Select r1, Select r2, FetchDone r2 (Some g2), FetchDone r1 (Some g1)] st))
           = map lgeo (layerHeap st) @ [g2, g1]
    \<and> {length (layerHeap st), length (layerHeap st) + 1}
         \<subseteq> set (mapLayers (run S C [Select r1, Select r2, FetchDone r1 (Some g1), FetchDone r2 (Some g2)] st))
    \<and> {length (layerHeap st), length (layerHeap st) + 1}
         \<subseteq> set (mapLayers (run S C [Select r1, Select r2, FetchDone r2 (Some g2), FetchDone r1 (Some g1)] st))"
proof -
  define b1 where "b1 = renderState_begin S r1 st"
  define b where "b = renderState_begin S r2 b1"
  note s1 = renderState_begin_sent[of S r1 i1 st, OF assms(1) assms(3), folded b1_def]
  note s2 = renderState_begin_sent[of S r2 i2 b1, OF assms(2) assms(4), folded b_def]
  have p: "r1 \<in> set (pending b)" "r2 \<in> set (pending b)"
    by (simp_all add: s1 s2)
  have h: "layerHeap b = layerHeap st"
    by (simp add: b_def b1_def renderState_begin_frame)
  have cs: "currentState b = Some r2"
    by (rule s2)
  have r: "run S C (Select r1 # Select r2 # evs) st = run S C evs b" for evs
    by (simp add: run_Cons step_Select b_def b1_def)
  show ?thesis
    unfolding r
    using two_responses[OF p(1) p(2) assms(5), of S C g1 g2]
      two_responses[OF p(2) p(1) assms(5)[symmetric], of S C g2 g1]
    by (simp add: h cs)
qed

text \<open>
  C1. A later selection should win over a response that is still in flight. The code does
  not ensure it. California is selected, then Texas while the request for California is
  pending; the response for Texas arrives first and the response for California second.
  The current region is Texas, but the cached geometry and the current layer are
  California's, and the layer built for Texas, which nothing refers to any more, is still
  on the map beside it.
\<close>

theorem stale_response_overwrites_selection:
  "currentState (run demoSTATES demoCOLORS
        [Select ''CA'', Select ''TX'', FetchDone ''TX'' (Some demoTX), FetchDone ''CA'' (Some demoCA)]
        demoState) = Some ''TX''
   \<and> currentGeoJSON (run demoSTATES demoCOLORS
        [Select ''CA'', Select ''TX'', FetchDone ''TX'' (Some demoTX), FetchDone ''CA'' (Some demoCA)]
        demoState) = Some demoCA
   \<and> currentLayer (run demoSTATES demoCOLORS
        [Select ''CA'', Select ''TX'', FetchDone ''TX'' (Some demoTX), FetchDone ''CA'' (Some demoCA)]
        demoState) = Some 1
   \<and> map lgeo (layerHeap (run demoSTATES demoCOLORS
        [Select ''CA'', Select ''TX'', FetchDone ''TX'' (Some demoTX), FetchDone ''CA'' (Some demoCA)]
        demoState)) = [demoTX, demoCA]
   \<and> 0 \<in> set (mapLayers (run demoSTATES demoCOLORS
        [Select ''CA'', Select ''TX'', FetchDone ''TX'' (Some demoTX), FetchDone ''CA'' (Some demoCA)]
        demoState))
   \<and> 1 \<in> set (mapLayers (run demoSTATES demoCOLORS
        [Select ''CA'', Select ''TX'', FetchDone ''TX'' (Some demoTX), FetchDone ''CA'' (Some demoCA)]
        demoState))
   \<and> demoCA \<noteq> demoTX"
proof -
  have h1: "demoSTATES ''CA'' =
      Some \<lparr>state_name = ''California'', state_file = ''ca_california_zip_codes_geo.min.json''\<rparr>"
    by (simp add: demoSTATES_def)
  have h2: "demoSTATES ''TX'' =
      Some \<lparr>state_name = ''Texas'', state_file = ''tx_texas_zip_codes_geo.min.json''\<rparr>"
    by (simp add: demoSTATES_def)
  have h3: "''CA'' \<noteq> []" and h4: "''TX'' \<noteq> []" and h5: "''CA'' \<noteq> ''TX''" by simp_all
  have d: "demoCA \<noteq> demoTX"
    by (simp add: demoCA_def demoTX_def)
  have e: "layerHeap demoState = []"
    by (simp add: demoState_def initialState_def)
  show ?thesis
    using d two_selects_two_responses[where S=demoSTATES and ?r1.0="''CA''" and ?r2.0="''TX''"
          and C=demoCOLORS and ?g1.0=demoCA and ?g2.0=demoTX and st=demoState, OF h1 h2 h3 h4 h5]
    by (simp add: e)
qed


section \<open>Changes while no region is rendered\<close>

lemma run_snoc: "run S C (evs @ [e]) st = step S C e (run S C evs st)"
  by (simp add: run_def)

lemma step_FetchDone_frame:
  "currentYear (step S C (FetchDone r res) st) = currentYear st"
  "scaleMode (step S C (FetchDone r res) st) = scaleMode st"
  "isPlaying (step S C (FetchDone r res) st) = isPlaying st"
  "playInterval (step S C (FetchDone r res) st) = playInterval st"
  "intervals (step S C (FetchDone r res) st) = intervals st"
  "nextInterval (step S C (FetchDone r res) st) = nextInterval st"
  by (simp_all add: step_def renderState_resume_frame)

lemma select_keeps_timer:
  "isPlaying (run S C [Select r, FetchDone r res] st) = isPlaying st"
  "playInterval (run S C [Select r, FetchDone r res] st) = playInterval st"
  "intervals (run S C [Select r, FetchDone r res] st) = intervals st"
  "nextInterval (run S C [Select r, FetchDone r res] st) = nextInterval st"
  "currentYear (run S C [Select r, FetchDone r res] st) = currentYear st"
  "scaleMode (run S C [Select r, FetchDone r res] st) = scaleMode st"
  by (simp_all add: run_Cons run_Nil step_FetchDone_frame step_Select renderState_begin_frame)

lemma select_then_loaded:
  assumes "S r = Some info" and "r \<noteq> []"
  shows "priceRange (run S C [Select r, FetchDone r (Some g)] st)
           = priceRange (applyPriceRange st (calculatePriceRange st g))"
    and "layerHeap (run S C [Select r, FetchDone r (Some g)] st) =
           layerHeap st @ [\<lparr>lgeo = g,
             lfill = map (styleFeature C (run S C [Select r, FetchDone r (Some g)] st)) (features g)\<rparr>]"
    and "currentLayer (run S C [Select r, FetchDone r (Some g)] st) = Some (length (layerHeap st))"
    and "currentGeoJSON (run S C [Select r, FetchDone r (Some g)] st) = Some g"
proof -
  define b where "b = renderState_begin S r st"
  define p where "p = b\<lparr>pending := remove1 r (pending b)\<rparr>"
  note sent = renderState_begin_sent[of S r info st, OF assms, folded b_def]
  have pb: "r \<in> set (pending b)" by (simp add: sent)
  have e: "run S C [Select r, FetchDone r (Some g)] st = renderState_resume C r (Some g) p"
    by (simp add: run_Cons run_Nil step_Select step_FetchDone[OF pb] b_def[symmetric] p_def)
  note rd = renderState_resume_done[where st=p and C=C and r=r and g=g, folded e]
  have f: "layerHeap p = layerHeap st" "zhviData p = zhviData st" "currentYear p = currentYear st"
    "scaleMode p = scaleMode st" "nationalPriceRange p = nationalPriceRange st"
    by (simp_all add: p_def b_def renderState_begin_frame)
  have "calculatePriceRange p g = calculatePriceRange st g"
    by (rule calculatePriceRange_cong) (simp_all add: f)
  moreover have "priceRange (applyPriceRange p sr) = priceRange (applyPriceRange st sr)" for sr
    by (rule applyPriceRange_cong) (simp_all add: f)
  ultimately show "priceRange (run S C [Select r, FetchDone r (Some g)] st)
           = priceRange (applyPriceRange st (calculatePriceRange st g))"
    by (simp add: rd(6))
  show "layerHeap (run S C [Select r, FetchDone r (Some g)] st) =
           layerHeap st @ [\<lparr>lgeo = g,
             lfill = map (styleFeature C (run S C [Select r, FetchDone r (Some g)] st)) (features g)\<rparr>]"
    using rd(3) by (simp add: f)
  show "currentLayer (run S C [Select r, FetchDone r (Some g)] st) = Some (length (layerHeap st))"
    using rd(2) by (simp add: f)
  show "currentGeoJSON (run S C [Select r, FetchDone r (Some g)] st) = Some g"
    by (rule rd(1))
qed

lemma restyleCached_idle:
  "currentLayer st = None \<or> currentGeoJSON st = None \<Longrightarrow> restyleCached C st = st"
  by (auto simp: restyleCached_def split: option.splits)

text \<open>
  C10. When there is no current layer or no cached geometry, \<open>updateYear\<close> and
  \<open>setScaleMode\<close> do not fail and are not without effect: the state afterwards is the
  state before with the new year, respectively the new scale mode, recorded, and nothing
  else changed. A region selected afterwards is rendered with the recorded value: the year,
  respectively the scale mode, is still the recorded one, the active range is the one
  computed for it, and the new layer shows the features styled for it.
\<close>

theorem changes_without_layer_are_recorded:
  assumes "currentLayer st = None \<or> currentGeoJSON st = None"
    and "S r = Some info" and "r \<noteq> []"
  shows "updateYear C y st = st\<lparr>currentYear := y\<rparr>
    \<and> setScaleMode C m st = st\<lparr>scaleMode := m\<rparr>
    \<and> currentYear (run S C [ChangeYear y, Select r, FetchDone r (Some g)] st) = y
    \<and> scaleMode (run S C [ChangeScale m, Select r, FetchDone r (Some g)] st) = m
    \<and> priceRange (run S C [ChangeYear y, Select r, FetchDone r (Some g)] st)
        = priceRange (applyPriceRange (st\<lparr>currentYear := y\<rparr>)
                                      (calculatePriceRange (st\<lparr>currentYear := y\<rparr>) g))
    \<and> priceRange (run S C [ChangeScale m, Select r, FetchDone r (Some g)] st)
        = priceRange (applyPriceRange (st\<lparr>scaleMode := m\<rparr>)
                                      (calculatePriceRange (st\<lparr>scaleMode := m\<rparr>) g))
    \<and> layerHeap (run S C [ChangeYear y, Select r, FetchDone r (Some g)] st) =
        layerHeap st @ [\<lparr>lgeo = g,
          lfill = map (styleFeature C (run S C [ChangeYear y, Select r, FetchDone r (Some g)] st))
                      (features g)\<rparr>]
    \<and> layerHeap (run S C [ChangeScale m, Select r, FetchDone r (Some g)] st) =
        layerHeap st @ [\<lparr>lgeo = g,
          lfill = map (styleFeature C (run S C [ChangeScale m, Select r, FetchDone r (Some g)] st))
                      (features g)\<rparr>]"
proof -
  have uy: "updateYear C y st = st\<lparr>currentYear := y\<rparr>"
    using assms(1) by (simp add: updateYear_def restyleCached_idle)
  have sm: "setScaleMode C m st = st\<lparr>scaleMode := m\<rparr>"
    using assms(1) by (simp add: setScaleMode_def restyleCached_idle)
  have ry: "run S C (ChangeYear y # evs) st = run S C evs (st\<lparr>currentYear := y\<rparr>)" for evs
    by (simp add: run_Cons step_ChangeYear uy)
  have rm: "run S C (ChangeScale m # evs) st = run S C evs (st\<lparr>scaleMode := m\<rparr>)" for evs
    by (simp add: run_Cons step_ChangeScale sm)
  note ly = select_then_loaded[of S r info C g "st\<lparr>currentYear := y\<rparr>", OF assms(2,3)]
  note lm = select_then_loaded[of S r info C g "st\<lparr>scaleMode := m\<rparr>", OF assms(2,3)]
  show ?thesis
    unfolding ry rm using uy sm ly(1,2) lm(1,2)
    by (simp add: select_keeps_timer)
qed


theorem changes_without_layer_are_recorded_witness:
  "(currentLayer demoState = None \<or> currentGeoJSON demoState = None)
   \<and> demoSTATES ''WI'' =
        Some \<lparr>state_name = ''Wisconsin'', state_file = ''wi_wisconsin_zip_codes_geo.min.json''\<rparr>
   \<and> ''WI'' \<noteq> []
   \<and> updateYear demoCOLORS 2020 demoState = demoState\<lparr>currentYear := 2020\<rparr>
   \<and> currentYear (run demoSTATES demoCOLORS
         [ChangeYear 2020, Select ''WI'', FetchDone ''WI'' (Some demoWI)] demoState) = 2020
   \<and> priceRange (run demoSTATES demoCOLORS
         [ChangeYear 2020, Select ''WI'', FetchDone ''WI'' (Some demoWI)] demoState)
       = \<lparr>min_r = 300000, max_r = 400000\<rparr>"
proof -
  have h1: "currentLayer demoState = None \<or> currentGeoJSON demoState = None"
    by (simp add: demoState_def initialState_def)
  have h2: "demoSTATES ''WI'' =
        Some \<lparr>state_name = ''Wisconsin'', state_file = ''wi_wisconsin_zip_codes_geo.min.json''\<rparr>"
    by (simp add: demoSTATES_def)
  have h3: "''WI'' \<noteq> []" by simp
  have v: "priceRange (applyPriceRange (demoState\<lparr>currentYear := 2020\<rparr>)
                         (calculatePriceRange (demoState\<lparr>currentYear := 2020\<rparr>) demoWI))
            = \<lparr>min_r = 300000, max_r = 400000\<rparr>"
    by (simp add: applyPriceRange_def calculatePriceRange_def collectPrices_def featurePrices_def
        rangeOfPrices_def demoState_def initialState_def demoData_def demoWI_def
        percentileIndex_5 percentileIndex_95 percentileIndex_50)
  show ?thesis
    using h1 h2 h3 v
      changes_without_layer_are_recorded[where st=demoState and S=demoSTATES and r="''WI''"
        and C=demoCOLORS and y=2020 and g=demoWI, OF h1 h2 h3]
    by simp
qed

section \<open>Year and scale changes on a rendered region\<close>

lemma setStyle_lgeo: "map lgeo (layerHeap (setStyle C l st)) = map lgeo (layerHeap st)"
  by (simp add: setStyle_def map_update list_update_same_conv)

lemma setStyle_nth:
  "l < length (layerHeap st) \<Longrightarrow>
   layerHeap (setStyle C l st) ! l =
     \<lparr>lgeo = lgeo (layerHeap st ! l),
      lfill = map (styleFeature C st) (features (lgeo (layerHeap st ! l)))\<rparr>"
  by (simp add: setStyle_def)

text \<open>The current layer shows the cached collection, styled for the current state.\<close>

lemma restyleCached_styles:
  assumes "currentLayer st = Some l" and "currentGeoJSON st = Some g"
    and "l < length (layerHeap st)" and "lgeo (layerHeap st ! l) = g"
  shows "layerHeap (restyleCached C st) ! l =
           \<lparr>lgeo = g, lfill = map (styleFeature C (restyleCached C st)) (features g)\<rparr>"
proof -
  define st1 where "st1 = applyPriceRange st (calculatePriceRange st g)"
  have r: "restyleCached C st = setStyle C l st1"
    using assms(1,2) by (simp add: restyleCached_def st1_def)
  have h: "layerHeap st1 = layerHeap st"
    by (simp add: st1_def applyPriceRange_fields)
  obtain lh where lh: "setStyle C l st1 = st1\<lparr>layerHeap := lh\<rparr>"
    using setStyle_upd[of C l st1] by blast
  have "styleFeature C (setStyle C l st1) = styleFeature C st1"
    by (rule styleFeature_cong) (simp_all add: lh)
  then show ?thesis
    using setStyle_nth[of l st1 C] assms(3,4) by (simp add: r h)
qed

lemma restyleCached_frame:
  "fetchLog (restyleCached C st) = fetchLog st"
  "pending (restyleCached C st) = pending st"
  "currentGeoJSON (restyleCached C st) = currentGeoJSON st"
  "currentLayer (restyleCached C st) = currentLayer st"
  "currentState (restyleCached C st) = currentState st"
  "mapLayers (restyleCached C st) = mapLayers st"
  "intervals (restyleCached C st) = intervals st"
  "nextInterval (restyleCached C st) = nextInterval st"
  "isPlaying (restyleCached C st) = isPlaying st"
  "playInterval (restyleCached C st) = playInterval st"
  "currentYear (restyleCached C st) = currentYear st"
  "scaleMode (restyleCached C st) = scaleMode st"
  "length (layerHeap (restyleCached C st)) = length (layerHeap st)"
  using restyleCached_upd[of C st] by auto

lemma restyleCached_lgeo:
  "map lgeo (layerHeap (restyleCached C st)) = map lgeo (layerHeap st)"
proof (cases "currentLayer st")
  case None
  then show ?thesis by (simp add: restyleCached_def)
next
  case (Some l)
  show ?thesis
  proof (cases "currentGeoJSON st")
    case None
    with Some show ?thesis by (simp add: restyleCached_def)
  next
    case (Some g)
    with \<open>currentLayer st = Some l\<close> show ?thesis
      by (simp add: restyleCached_def setStyle_lgeo applyPriceRange_fields)
  qed
qed

lemma restyleCached_data:
  "zhviData (restyleCached C st) = zhviData st"
  "nationalPriceRange (restyleCached C st) = nationalPriceRange st"
  using restyleCached_upd[of C st] by auto

lemma restyleCached_range:
  assumes "currentLayer st = Some l" and "currentGeoJSON st = Some g"
  shows "priceRange (restyleCached C st) =
           priceRange (applyPriceRange (restyleCached C st)
                                       (calculatePriceRange (restyleCached C st) g))"
proof -
  obtain lh where lh: "setStyle C l (applyPriceRange st (calculatePriceRange st g)) =
      (applyPriceRange st (calculatePriceRange st g))\<lparr>layerHeap := lh\<rparr>"
    using setStyle_upd[of C l "applyPriceRange st (calculatePriceRange st g)"] by blast
  have "priceRange (restyleCached C st) = priceRange (applyPriceRange st (calculatePriceRange st g))"
    using assms by (simp add: restyleCached_def Let_def lh)
  also have "calculatePriceRange st g = calculatePriceRange (restyleCached C st) g"
    by (rule calculatePriceRange_cong) (simp_all add: restyleCached_data restyleCached_frame)
  also have "priceRange (applyPriceRange st (calculatePriceRange (restyleCached C st) g)) =
      priceRange (applyPriceRange (restyleCached C st) (calculatePriceRange (restyleCached C st) g))"
    by (rule applyPriceRange_cong) (simp_all add: restyleCached_data restyleCached_frame)
  finally show ?thesis .
qed

lemma year_scale_step:
  assumes "currentLayer st = Some l" and "currentGeoJSON st = Some g"
    and "l < length (layerHeap st)" and "lgeo (layerHeap st ! l) = g"
  shows "currentLayer (step S C (case_sum ChangeYear ChangeScale op) st) = Some l"
    and "currentGeoJSON (step S C (case_sum ChangeYear ChangeScale op) st) = Some g"
    and "l < length (layerHeap (step S C (case_sum ChangeYear ChangeScale op) st))"
    and "layerHeap (step S C (case_sum ChangeYear ChangeScale op) st) ! l =
           \<lparr>lgeo = g, lfill = map (styleFeature C (step S C (case_sum ChangeYear ChangeScale op) st))
                                   (features g)\<rparr>"
    and "fetchLog (step S C (case_sum ChangeYear ChangeScale op) st) = fetchLog st"
    and "priceRange (step S C (case_sum ChangeYear ChangeScale op) st) =
           priceRange (applyPriceRange (step S C (case_sum ChangeYear ChangeScale op) st)
              (calculatePriceRange (step S C (case_sum ChangeYear ChangeScale op) st) g))"
    and "currentYear (step S C (case_sum ChangeYear ChangeScale op) st) =
           (case op of Inl y \<Rightarrow> y | Inr m \<Rightarrow> currentYear st)"
    and "scaleMode (step S C (case_sum ChangeYear ChangeScale op) st) =
           (case op of Inl y \<Rightarrow> scaleMode st | Inr m \<Rightarrow> m)"
    and "zhviData (step S C (case_sum ChangeYear ChangeScale op) st) = zhviData st"
    and "nationalPriceRange (step S C (case_sum ChangeYear ChangeScale op) st)
           = nationalPriceRange st"
proof -
  obtain st0 where e: "step S C (case_sum ChangeYear ChangeScale op) st = restyleCached C st0"
    and f: "currentLayer st0 = Some l" "currentGeoJSON st0 = Some g" "layerHeap st0 = layerHeap st"
       "fetchLog st0 = fetchLog st" "zhviData st0 = zhviData st"
       "nationalPriceRange st0 = nationalPriceRange st"
       "currentYear st0 = (case op of Inl y \<Rightarrow> y | Inr m \<Rightarrow> currentYear st)"
       "scaleMode st0 = (case op of Inl y \<Rightarrow> scaleMode st | Inr m \<Rightarrow> m)"
  proof (cases op)
    case (Inl y)
    show ?thesis
      by (rule that[of "st\<lparr>currentYear := y\<rparr>"])
        (simp_all add: Inl step_ChangeYear updateYear_def assms)
  next
    case (Inr m)
    show ?thesis
      by (rule that[of "st\<lparr>scaleMode := m\<rparr>"])
        (simp_all add: Inr step_ChangeScale setScaleMode_def assms)
  qed
  have a3: "l < length (layerHeap st0)" and a4: "lgeo (layerHeap st0 ! l) = g"
    using assms(3,4) f(3) by simp_all
  show "currentLayer (step S C (case_sum ChangeYear ChangeScale op) st) = Some l"
    by (simp add: e restyleCached_frame f)
  show "currentGeoJSON (step S C (case_sum ChangeYear ChangeScale op) st) = Some g"
    by (simp add: e restyleCached_frame f)
  show "l < length (layerHeap (step S C (case_sum ChangeYear ChangeScale op) st))"
    using a3 by (simp add: e restyleCached_frame)
  show "layerHeap (step S C (case_sum ChangeYear ChangeScale op) st) ! l =
           \<lparr>lgeo = g, lfill = map (styleFeature C (step S C (case_sum ChangeYear ChangeScale op) st))
                                   (features g)\<rparr>"
    unfolding e by (rule restyleCached_styles[OF f(1) f(2) a3 a4])
  show "fetchLog (step S C (case_sum ChangeYear ChangeScale op) st) = fetchLog st"
    by (simp add: e restyleCached_frame f)
  show "priceRange (step S C (case_sum ChangeYear ChangeScale op) st) =
           priceRange (applyPriceRange (step S C (case_sum ChangeYear ChangeScale op) st)
              (calculatePriceRange (step S C (case_sum ChangeYear ChangeScale op) st) g))"
    unfolding e by (rule restyleCached_range[OF f(1) f(2)])
  show "currentYear (step S C (case_sum ChangeYear ChangeScale op) st) =
           (case op of Inl y \<Rightarrow> y | Inr m \<Rightarrow> currentYear st)"
    by (simp add: e restyleCached_frame f)
  show "scaleMode (step S C (case_sum ChangeYear ChangeScale op) st) =
           (case op of Inl y \<Rightarrow> scaleMode st | Inr m \<Rightarrow> m)"
    by (simp add: e restyleCached_frame f)
  show "zhviData (step S C (case_sum ChangeYear ChangeScale op) st) = zhviData st"
    by (simp add: e restyleCached_data f)
  show "nationalPriceRange (step S C (case_sum ChangeYear ChangeScale op) st)
           = nationalPriceRange st"
    by (simp add: e restyleCached_data f)
qed

lemma year_scale_run:
  assumes "currentLayer st = Some l" and "currentGeoJSON st = Some g"
    and "l < length (layerHeap st)" and "lgeo (layerHeap st ! l) = g"
    and "lfill (layerHeap st ! l) = map (styleFeature C st) (features g)"
    and "priceRange st = priceRange (applyPriceRange st (calculatePriceRange st g))"
  shows "currentLayer (run S C (map (case_sum ChangeYear ChangeScale) ops) st) = Some l
    \<and> currentGeoJSON (run S C (map (case_sum ChangeYear ChangeScale) ops) st) = Some g
    \<and> layerHeap (run S C (map (case_sum ChangeYear ChangeScale) ops) st) ! l =
           \<lparr>lgeo = g, lfill = map (styleFeature C (run S C (map (case_sum ChangeYear ChangeScale) ops) st))
                                   (features g)\<rparr>
    \<and> fetchLog (run S C (map (case_sum ChangeYear ChangeScale) ops) st) = fetchLog st
    \<and> priceRange (run S C (map (case_sum ChangeYear ChangeScale) ops) st) =
         priceRange (applyPriceRange (run S C (map (case_sum ChangeYear ChangeScale) ops) st)
           (calculatePriceRange (run S C (map (case_sum ChangeYear ChangeScale) ops) st) g))
    \<and> currentYear (run S C (map (case_sum ChangeYear ChangeScale) ops) st) =
         fold (\<lambda>op y. case op of Inl y' \<Rightarrow> y' | Inr m \<Rightarrow> y) ops (currentYear st)
    \<and> scaleMode (run S C (map (case_sum ChangeYear ChangeScale) ops) st) =
         fold (\<lambda>op m. case op of Inl y \<Rightarrow> m | Inr m' \<Rightarrow> m') ops (scaleMode st)
    \<and> zhviData (run S C (map (case_sum ChangeYear ChangeScale) ops) st) = zhviData st
    \<and> nationalPriceRange (run S C (map (case_sum ChangeYear ChangeScale) ops) st)
         = nationalPriceRange st"
  using assms
proof (induction ops arbitrary: st)
  case Nil
  then show ?case by (simp add: run_Nil)
next
  case (Cons op ops)
  note st = year_scale_step[OF Cons.prems(1-4), of S C op]
  have "lfill (layerHeap (step S C (case_sum ChangeYear ChangeScale op) st) ! l)
          = map (styleFeature C (step S C (case_sum ChangeYear ChangeScale op) st)) (features g)"
    and "lgeo (layerHeap (step S C (case_sum ChangeYear ChangeScale op) st) ! l) = g"
    by (simp_all add: st(4))
  from Cons.IH[OF st(1) st(2) st(3) this(2) this(1) st(6)]
  show ?case by (simp add: run_Cons st(5) st(7) st(8) st(9) st(10))
qed

text \<open>
  C8. After a region has been rendered, any sequence of year changes and scale-mode changes
  sends no geometry request: the only request logged since the selection is the one for the
  selected region. The cached collection stays the one fetched and the current layer stays
  the one built from it. Both operations recompute the range and restyle from the cache:
  after the sequence the year is the last year set, the scale mode the last mode set, the
  active range is the one computed from the cached collection for that year and mode, and
  the layer shows the features of the cached collection styled for that year and range.
\<close>

theorem year_and_scale_changes_do_not_fetch:
  fixes S :: "string \<rightharpoonup> stateInfo" and C :: "string list" and st :: appState
    and r :: string and g :: geojson and ops :: "(int + string) list"
  defines "F \<equiv> run S C (Select r # FetchDone r (Some g)
                              # map (case_sum ChangeYear ChangeScale) ops) st"
  defines "Y \<equiv> fold (\<lambda>op y. case op of Inl y' \<Rightarrow> y' | Inr m \<Rightarrow> y) ops (currentYear st)"
  defines "M \<equiv> fold (\<lambda>op m. case op of Inl y \<Rightarrow> m | Inr m' \<Rightarrow> m') ops (scaleMode st)"
  defines "R \<equiv> priceRange (applyPriceRange (st\<lparr>currentYear := Y, scaleMode := M\<rparr>)
                                             (calculatePriceRange (st\<lparr>currentYear := Y\<rparr>) g))"
  assumes "S r = Some info" and "r \<noteq> []"
  shows "fetchLog F = fetchLog st @ [state_file info]
    \<and> currentGeoJSON F = Some g
    \<and> currentLayer F = Some (length (layerHeap st))
    \<and> currentYear F = Y \<and> scaleMode F = M
    \<and> priceRange F = R
    \<and> layerHeap F ! length (layerHeap st) =
         \<lparr>lgeo = g,
          lfill = map (styleFeature C (st\<lparr>currentYear := Y, priceRange := R\<rparr>)) (features g)\<rparr>"
proof -
  define b where "b = renderState_begin S r st"
  define p where "p = b\<lparr>pending := remove1 r (pending b)\<rparr>"
  define d where "d = renderState_resume C r (Some g) p"
  note sent = renderState_begin_sent[of S r info st, OF assms(5,6), folded b_def]
  have pb: "r \<in> set (pending b)" by (simp add: sent)
  have fp: "layerHeap p = layerHeap st" "zhviData p = zhviData st"
    "nationalPriceRange p = nationalPriceRange st" "currentYear p = currentYear st"
    "scaleMode p = scaleMode st"
    by (simp_all add: p_def b_def renderState_begin_frame)
  have r: "run S C (Select r # FetchDone r (Some g) # evs) st = run S C evs d" for evs
    by (simp add: run_Cons step_Select step_FetchDone[OF pb] b_def[symmetric] p_def d_def)
  note rd = renderState_resume_done[where st=p and C=C and r=r and g=g, folded d_def]
  have fd: "zhviData d = zhviData st" "nationalPriceRange d = nationalPriceRange st"
    "currentYear d = currentYear st" "scaleMode d = scaleMode st"
    by (simp_all add: d_def renderState_resume_frame fp)
  have l: "currentLayer d = Some (length (layerHeap st))" and gj: "currentGeoJSON d = Some g"
    by (simp_all add: rd fp)
  have heap_d: "layerHeap d = layerHeap st @ [\<lparr>lgeo = g, lfill = map (styleFeature C d) (features g)\<rparr>]"
    using rd(3) by (simp add: fp)
  have fl: "fetchLog d = fetchLog st @ [state_file info]"
    by (simp add: d_def renderState_resume_frame p_def sent)
  have i3: "length (layerHeap st) < length (layerHeap d)"
    and i4: "lgeo (layerHeap d ! length (layerHeap st)) = g"
    and i5: "lfill (layerHeap d ! length (layerHeap st)) = map (styleFeature C d) (features g)"
    by (simp_all add: heap_d)
  have "calculatePriceRange p g = calculatePriceRange d g"
    by (rule calculatePriceRange_cong) (simp_all add: fp fd)
  moreover have "priceRange (applyPriceRange p sr) = priceRange (applyPriceRange d sr)" for sr
    by (rule applyPriceRange_cong) (simp_all add: fp fd)
  ultimately have i6: "priceRange d = priceRange (applyPriceRange d (calculatePriceRange d g))"
    by (simp add: rd(6))
  have F: "F = run S C (map (case_sum ChangeYear ChangeScale) ops) d"
    unfolding F_def by (rule r)
  note inv = year_scale_run[OF l gj i3 i4 i5 i6, of S ops, folded F]
  have y: "currentYear F = Y" and m: "scaleMode F = M"
    using inv by (simp_all add: Y_def M_def fd)
  have zf: "zhviData F = zhviData st" "nationalPriceRange F = nationalPriceRange st"
    using inv by (simp_all add: fd)
  have "calculatePriceRange F g = calculatePriceRange (st\<lparr>currentYear := Y\<rparr>) g"
    by (rule calculatePriceRange_cong) (simp_all add: zf y)
  moreover have "priceRange (applyPriceRange F sr) =
      priceRange (applyPriceRange (st\<lparr>currentYear := Y, scaleMode := M\<rparr>) sr)" for sr
    by (rule applyPriceRange_cong) (simp_all add: zf y m)
  ultimately have pr: "priceRange F = R"
    using inv by (simp add: R_def)
  have "styleFeature C F = styleFeature C (st\<lparr>currentYear := Y, priceRange := R\<rparr>)"
    by (rule styleFeature_cong) (simp_all add: pr zf y)
  then show ?thesis
    using inv y m pr by (simp add: fl)
qed

lemma select_keeps_data:
  "zhviData (run S C [Select r, FetchDone r res] st) = zhviData st"
  "nationalPriceRange (run S C [Select r, FetchDone r res] st) = nationalPriceRange st"
  by (simp_all add: run_Cons run_Nil step_def renderState_resume_frame step_Select
      renderState_begin_frame)

text \<open>The example data, evaluated.\<close>

lemma demoLoaded_fields:
  "zhviData demoLoaded = demoData" "currentYear demoLoaded = 2000"
  "scaleMode demoLoaded = ''state''" "layerHeap demoLoaded = []" "fetchLog demoLoaded = []"
  "currentLayer demoLoaded = None"
  by (simp_all add: demoLoaded_def calculateNationalPriceRanges_def demoState_def initialState_def)

lemma demo_prices:
  "nationalPrices demoState 2000 = [150000, 100000, 200000]"
  "collectPrices (demoState\<lparr>currentYear := 2020\<rparr>) demoWI = [300000, 400000]"
  by (simp_all add: nationalPrices_def collectPrices_def featurePrices_def demoState_def
      initialState_def demoData_def demoWI_def AList.clearjunk.simps AList.delete_eq)

lemma demo_ranges:
  "nationalRangeOf [150000, 100000, 200000] = \<lparr>min_r = 100000, max_r = 200000\<rparr>"
  "rangeOfPrices [300000, 400000] =
     \<lparr>min_s = 300000, max_s = 400000, median = 400000, lowest = 300000, highest = 400000,
      count = 2\<rparr>"
  by (simp_all add: nationalRangeOf_def rangeOfPrices_def percentileIndex_5 percentileIndex_95
      percentileIndex_50)


lemma national_demo_2000:
  "nationalPriceRange demoLoaded 2000 = Some \<lparr>min_r = 100000, max_r = 200000\<rparr>"
  unfolding demoLoaded_def by (simp add: national_table_at demo_prices demo_ranges)

lemma demo_colours:
  assumes "priceRange st = \<lparr>min_r = 100000, max_r = 200000\<rparr>"
  shows "getColor demoCOLORS st 150000 = Some ''#fd8d3c''"
    and "getColor demoCOLORS st 100000 = Some ''#ffffb2''"
proof -
  have s: "js_sub 150000 100000 = Fin 50000" "js_sub 200000 100000 = Fin 100000"
    "js_sub 100000 100000 = Fin 0"
    using to_double_nat[of 50000 False] to_double_nat[of 100000 False]
    by (simp_all add: js_sub_def) (simp add: to_double_def)
  have h: "to_double True (1 / 2) = Fin (1 / 2)"
    by (simp add: to_double_def round_mag_def ulp_def ilog2_def compute_bitlen rne_def
        power_int_minus)
  have m: "to_double True 2 = Fin 2" "to_double True 0 = Fin 0"
    using to_double_nat[of 2 True] by (simp_all add: to_double_def)
  show "getColor demoCOLORS st 150000 = Some ''#fd8d3c''"
    by (simp add: getColor_def bucketIndex_def assms s h m demoCOLORS_def)
  show "getColor demoCOLORS st 100000 = Some ''#ffffb2''"
    by (simp add: getColor_def bucketIndex_def assms s h m demoCOLORS_def)
qed

theorem year_and_scale_changes_do_not_fetch_witness:
  "demoSTATES ''WI'' =
      Some \<lparr>state_name = ''Wisconsin'', state_file = ''wi_wisconsin_zip_codes_geo.min.json''\<rparr>
   \<and> ''WI'' \<noteq> []
   \<and> fetchLog (run demoSTATES demoCOLORS
        (Select ''WI'' # FetchDone ''WI'' (Some demoWI)
           # map (case_sum ChangeYear ChangeScale) [Inl 2020, Inl 2000, Inr ''national'']) demoLoaded)
       = [''wi_wisconsin_zip_codes_geo.min.json'']
   \<and> currentGeoJSON (run demoSTATES demoCOLORS
        (Select ''WI'' # FetchDone ''WI'' (Some demoWI)
           # map (case_sum ChangeYear ChangeScale) [Inl 2020, Inl 2000, Inr ''national'']) demoLoaded)
       = Some demoWI
   \<and> currentYear (run demoSTATES demoCOLORS
        (Select ''WI'' # FetchDone ''WI'' (Some demoWI)
           # map (case_sum ChangeYear ChangeScale) [Inl 2020, Inl 2000, Inr ''national'']) demoLoaded)
       = 2000
   \<and> scaleMode (run demoSTATES demoCOLORS
        (Select ''WI'' # FetchDone ''WI'' (Some demoWI)
           # map (case_sum ChangeYear ChangeScale) [Inl 2020, Inl 2000, Inr ''national'']) demoLoaded)
       = ''national''
   \<and> priceRange (run demoSTATES demoCOLORS
        (Select ''WI'' # FetchDone ''WI'' (Some demoWI)
           # map (case_sum ChangeYear ChangeScale) [Inl 2020, Inl 2000, Inr ''national'']) demoLoaded)
       = \<lparr>min_r = 100000, max_r = 200000\<rparr>
   \<and> layerHeap (run demoSTATES demoCOLORS
        (Select ''WI'' # FetchDone ''WI'' (Some demoWI)
           # map (case_sum ChangeYear ChangeScale) [Inl 2020, Inl 2000, Inr ''national'']) demoLoaded)
         ! 0
       = \<lparr>lgeo = demoWI, lfill = [Some ''#fd8d3c'', Some ''#ffffb2'']\<rparr>"
proof -
  have h1: "demoSTATES ''WI'' =
      Some \<lparr>state_name = ''Wisconsin'', state_file = ''wi_wisconsin_zip_codes_geo.min.json''\<rparr>"
    by (simp add: demoSTATES_def)
  have h2: "''WI'' \<noteq> []" by simp
  define st' where "st' = demoLoaded\<lparr>currentYear := 2000, scaleMode := ''national''\<rparr>"
  have R: "priceRange (applyPriceRange st' sr) = \<lparr>min_r = 100000, max_r = 200000\<rparr>" for sr
    by (simp add: applyPriceRange_def st'_def national_demo_2000)
  define st'' where
    "st'' = demoLoaded\<lparr>currentYear := 2000, priceRange := \<lparr>min_r = 100000, max_r = 200000\<rparr>\<rparr>"
  have c: "map (styleFeature demoCOLORS st'') (features demoWI)
             = [Some ''#fd8d3c'', Some ''#ffffb2'']"
    using demo_colours[of st'']
    by (simp add: styleFeature_def st''_def demoLoaded_fields demoData_def demoWI_def)
  show ?thesis
    using h1 h2
      year_and_scale_changes_do_not_fetch[where S=demoSTATES and r="''WI''" and C=demoCOLORS
        and g=demoWI and st=demoLoaded and ops="[Inl 2020, Inl 2000, Inr ''national'']",
        OF h1 h2]
    by (simp add: demoLoaded_fields st'_def[symmetric] R st''_def[symmetric] c)
qed

section \<open>Changing the year\<close>

text \<open>
  C6 (as the code has it). \<open>updateYear\<close> stores the integer that \<open>parseInt\<close> yields for
  its argument, whatever it is: nothing clamps it into 2000 to 2025. When there is no
  current layer or no cached geometry nothing else changes. When a region is rendered, the
  active range becomes the one computed from the cached collection for the new year and
  the current scale mode, and the current layer is restyled for the new year and that
  range; nothing else changes.
\<close>

theorem updateYear_stores_year:
  "currentYear (updateYear C y st) = y
   \<and> (currentLayer st = None \<or> currentGeoJSON st = None \<longrightarrow>
        updateYear C y st = st\<lparr>currentYear := y\<rparr>)
   \<and> (currentLayer st = Some l \<and> currentGeoJSON st = Some g \<and> l < length (layerHeap st) \<longrightarrow>
        updateYear C y st =
          st\<lparr>currentYear := y,
             priceRange := priceRange (applyPriceRange (st\<lparr>currentYear := y\<rparr>)
                                         (calculatePriceRange (st\<lparr>currentYear := y\<rparr>) g)),
             layerHeap := (layerHeap st)
               [l := (layerHeap st ! l)
                  \<lparr>lfill := map (styleFeature C
                      (st\<lparr>currentYear := y,
                          priceRange := priceRange (applyPriceRange (st\<lparr>currentYear := y\<rparr>)
                                         (calculatePriceRange (st\<lparr>currentYear := y\<rparr>) g))\<rparr>))
                      (features (lgeo (layerHeap st ! l)))\<rparr>]\<rparr>)"
proof -
  have a: "currentYear (updateYear C y st) = y"
    using updateYear_upd[of C y st] by auto
  have b: "updateYear C y st = st\<lparr>currentYear := y\<rparr>"
    if "currentLayer st = None \<or> currentGeoJSON st = None"
    using that by (auto simp: updateYear_def restyleCached_def split: option.splits)
  have c: "updateYear C y st =
          st\<lparr>currentYear := y,
             priceRange := priceRange (applyPriceRange (st\<lparr>currentYear := y\<rparr>)
                                         (calculatePriceRange (st\<lparr>currentYear := y\<rparr>) g)),
             layerHeap := (layerHeap st)
               [l := (layerHeap st ! l)
                  \<lparr>lfill := map (styleFeature C
                      (st\<lparr>currentYear := y,
                          priceRange := priceRange (applyPriceRange (st\<lparr>currentYear := y\<rparr>)
                                         (calculatePriceRange (st\<lparr>currentYear := y\<rparr>) g))\<rparr>))
                      (features (lgeo (layerHeap st ! l)))\<rparr>]\<rparr>"
    if "currentLayer st = Some l" "currentGeoJSON st = Some g" "l < length (layerHeap st)"
    using restyleCached_rendered[of "st\<lparr>currentYear := y\<rparr>" l g C] that
    by (simp add: updateYear_def)
  show ?thesis using a b c by blast
qed


theorem updateYear_stores_year_witness:
  "currentLayer (run demoSTATES demoCOLORS [Select ''WI'', FetchDone ''WI'' (Some demoWI)] demoState)
     = Some 0
   \<and> currentGeoJSON (run demoSTATES demoCOLORS [Select ''WI'', FetchDone ''WI'' (Some demoWI)] demoState)
     = Some demoWI
   \<and> 0 < length (layerHeap
        (run demoSTATES demoCOLORS [Select ''WI'', FetchDone ''WI'' (Some demoWI)] demoState))
   \<and> currentYear (updateYear demoCOLORS 2020
        (run demoSTATES demoCOLORS [Select ''WI'', FetchDone ''WI'' (Some demoWI)] demoState)) = 2020
   \<and> priceRange (updateYear demoCOLORS 2020
        (run demoSTATES demoCOLORS [Select ''WI'', FetchDone ''WI'' (Some demoWI)] demoState))
     = \<lparr>min_r = 300000, max_r = 400000\<rparr>
   \<and> (currentLayer demoState = None \<or> currentGeoJSON demoState = None)
   \<and> updateYear demoCOLORS 2030 demoState = demoState\<lparr>currentYear := 2030\<rparr>"
proof -
  let ?s1 = "run demoSTATES demoCOLORS [Select ''WI'', FetchDone ''WI'' (Some demoWI)] demoState"
  have h1: "demoSTATES ''WI'' =
      Some \<lparr>state_name = ''Wisconsin'', state_file = ''wi_wisconsin_zip_codes_geo.min.json''\<rparr>"
    by (simp add: demoSTATES_def)
  have h2: "''WI'' \<noteq> []" by simp
  have e: "layerHeap demoState = []" "scaleMode demoState = ''state''"
    "currentLayer demoState = None"
    by (simp_all add: demoState_def initialState_def)
  note ld = select_then_loaded[where S=demoSTATES and r="''WI''" and C=demoCOLORS and g=demoWI
      and st=demoState, OF h1 h2]
  have a: "currentLayer ?s1 = Some 0" and b: "currentGeoJSON ?s1 = Some demoWI"
    and c: "0 < length (layerHeap ?s1)"
    using ld(3) ld(4) by (simp_all add: e ld(2))
  have "calculatePriceRange (?s1\<lparr>currentYear := 2020\<rparr>) demoWI
          = calculatePriceRange (demoState\<lparr>currentYear := 2020\<rparr>) demoWI"
    by (rule calculatePriceRange_cong) (simp_all add: select_keeps_data)
  then have R: "priceRange (applyPriceRange (?s1\<lparr>currentYear := 2020\<rparr>)
                  (calculatePriceRange (?s1\<lparr>currentYear := 2020\<rparr>) demoWI))
                = \<lparr>min_r = 300000, max_r = 400000\<rparr>"
    by (simp add: applyPriceRange_def select_keeps_timer e calculatePriceRange_def demo_prices
        demo_ranges)
  have i: "currentLayer demoState = None \<or> currentGeoJSON demoState = None"
    by (simp add: e)
  have u: "updateYear demoCOLORS 2020 ?s1 =
      ?s1\<lparr>currentYear := 2020,
          priceRange := priceRange (applyPriceRange (?s1\<lparr>currentYear := 2020\<rparr>)
                                      (calculatePriceRange (?s1\<lparr>currentYear := 2020\<rparr>) demoWI)),
          layerHeap := (layerHeap ?s1)
            [0 := (layerHeap ?s1 ! 0)
               \<lparr>lfill := map (styleFeature demoCOLORS
                   (?s1\<lparr>currentYear := 2020,
                        priceRange := priceRange (applyPriceRange (?s1\<lparr>currentYear := 2020\<rparr>)
                                      (calculatePriceRange (?s1\<lparr>currentYear := 2020\<rparr>) demoWI))\<rparr>))
                   (features (lgeo (layerHeap ?s1 ! 0)))\<rparr>]\<rparr>"
    using updateYear_stores_year[of demoCOLORS 2020 ?s1 0 demoWI] a b c by blast
  have p: "priceRange (updateYear demoCOLORS 2020 ?s1) = \<lparr>min_r = 300000, max_r = 400000\<rparr>"
    by (subst u) (simp add: R)
  have y: "currentYear (updateYear demoCOLORS 2020 ?s1) = 2020"
    by (subst u) simp
  have n: "updateYear demoCOLORS 2030 demoState = demoState\<lparr>currentYear := 2030\<rparr>"
    using updateYear_stores_year[of demoCOLORS 2030 demoState] i by blast
  show ?thesis using a b c y p i n by blast
qed

text \<open>
  C6 (as stated) fails: asked for 1990, \<open>updateYear\<close> does not store the clamped year 2000.
\<close>

theorem updateYear_no_clamp_counterexample:
  "currentYear (updateYear [] 1990 initialState) \<noteq> max 2000 (min 2025 1990)"
  by (simp add: updateYear_def restyleCached_def initialState_def)

section \<open>The animation timer\<close>

lemma togglePlay_pause:
  "isPlaying st \<Longrightarrow>
   togglePlay C st = (clearInterval (playInterval st) st)\<lparr>isPlaying := False\<rparr>"
  by (simp add: togglePlay_def)

lemma togglePlay_timers:
  "isPlaying st \<Longrightarrow> intervals (togglePlay C st) =
      (case playInterval st of None \<Rightarrow> intervals st | Some i \<Rightarrow> removeAll i (intervals st))"
  "isPlaying st \<Longrightarrow> nextInterval (togglePlay C st) = nextInterval st"
  "\<not> isPlaying st \<Longrightarrow> intervals (togglePlay C st) = intervals st @ [nextInterval st]"
  "\<not> isPlaying st \<Longrightarrow> nextInterval (togglePlay C st) = nextInterval st + 1"
proof -
  obtain pr lh where u: "updateYear C 2000 (st\<lparr>isPlaying := True\<rparr>) =
      st\<lparr>isPlaying := True, currentYear := 2000, priceRange := pr, layerHeap := lh\<rparr>"
    using updateYear_upd[of C 2000 "st\<lparr>isPlaying := True\<rparr>"] by auto
  show "isPlaying st \<Longrightarrow> intervals (togglePlay C st) =
      (case playInterval st of None \<Rightarrow> intervals st | Some i \<Rightarrow> removeAll i (intervals st))"
    by (simp add: togglePlay_def clearInterval_def split: option.splits)
  show "isPlaying st \<Longrightarrow> nextInterval (togglePlay C st) = nextInterval st"
    by (simp add: togglePlay_def clearInterval_def split: option.splits)
  show "\<not> isPlaying st \<Longrightarrow> intervals (togglePlay C st) = intervals st @ [nextInterval st]"
    by (simp add: togglePlay_def setInterval_def Let_def u)
  show "\<not> isPlaying st \<Longrightarrow> nextInterval (togglePlay C st) = nextInterval st + 1"
    by (simp add: togglePlay_def setInterval_def Let_def u)
qed

lemma updateYear_timers:
  "intervals (updateYear C y st) = intervals st"
  "nextInterval (updateYear C y st) = nextInterval st"
  using updateYear_upd[of C y st] by auto

lemma setScaleMode_timers:
  "intervals (setScaleMode C m st) = intervals st"
  "nextInterval (setScaleMode C m st) = nextInterval st"
  using setScaleMode_upd[of C m st] by auto

text \<open>A timer identifier that has been issued and cleared is never active again.\<close>

lemma togglePlay_keeps_cleared:
  assumes "t < nextInterval st" and "t \<notin> set (intervals st)"
  shows "t < nextInterval (togglePlay C st) \<and> t \<notin> set (intervals (togglePlay C st))"
  using assms by (cases "isPlaying st") (auto simp: togglePlay_timers split: option.splits)

lemma step_keeps_cleared:
  assumes "t < nextInterval st" and "t \<notin> set (intervals st)"
  shows "t < nextInterval (step S C e st) \<and> t \<notin> set (intervals (step S C e st))"
proof (cases e)
  case (Select r)
  then show ?thesis using assms by (simp add: step_Select renderState_begin_frame)
next
  case (FetchDone r res)
  then show ?thesis using assms by (simp add: step_FetchDone_frame)
next
  case (ChangeYear y)
  then show ?thesis using assms by (simp add: step_ChangeYear updateYear_timers)
next
  case (ChangeScale m)
  then show ?thesis using assms by (simp add: step_ChangeScale setScaleMode_timers)
next
  case TogglePlay
  then show ?thesis using togglePlay_keeps_cleared[OF assms, of C] by (simp add: step_def)
next
  case (Tick i)
  then show ?thesis
    using togglePlay_keeps_cleared[OF assms, of C] assms
    by (simp add: step_def playTick_def updateYear_timers)
qed

lemma run_keeps_cleared:
  "t < nextInterval st \<Longrightarrow> t \<notin> set (intervals st) \<Longrightarrow>
   t < nextInterval (run S C evs st) \<and> t \<notin> set (intervals (run S C evs st))"
proof (induction evs arbitrary: st)
  case Nil
  then show ?case by (simp add: run_Nil)
next
  case (Cons e evs)
  from step_keeps_cleared[OF Cons.prems, of S C e] Cons.IH[of "step S C e st"]
  show ?case by (simp add: run_Cons)
qed

text \<open>
  C9 (as the code has it). While the animation is playing with timer \<open>t\<close>, pausing clears
  the timer for good: the playing flag is off, and after any later events \<open>t\<close> is not
  active, so a firing of \<open>t\<close> changes nothing. Selecting a region does not touch the
  animation: after the selection and its response the playing flag is still on and the same
  timer is still active.
\<close>

theorem pause_clears_timer_selection_keeps_it:
  assumes "isPlaying st" and "playInterval st = Some t" and "t < nextInterval st"
  shows "\<not> isPlaying (togglePlay C st)
    \<and> t \<notin> set (intervals (run S C evs (togglePlay C st)))
    \<and> step S C (Tick t) (run S C evs (togglePlay C st)) = run S C evs (togglePlay C st)
    \<and> isPlaying (run S C [Select r, FetchDone r res] st)
    \<and> playInterval (run S C [Select r, FetchDone r res] st) = Some t
    \<and> intervals (run S C [Select r, FetchDone r res] st) = intervals st"
proof -
  have a: "\<not> isPlaying (togglePlay C st)"
    using assms(1) by (simp add: togglePlay_pause)
  have "t < nextInterval (togglePlay C st)" and "t \<notin> set (intervals (togglePlay C st))"
    using assms by (simp_all add: togglePlay_timers)
  then have b: "t \<notin> set (intervals (run S C evs (togglePlay C st)))"
    using run_keeps_cleared by blast
  then have c: "step S C (Tick t) (run S C evs (togglePlay C st)) = run S C evs (togglePlay C st)"
    by (simp add: step_def)
  show ?thesis
    using a b c assms(1,2) by (simp add: select_keeps_timer)
qed

text \<open>The example state with the animation started.\<close>

lemma demo_playing:
  "isPlaying (togglePlay demoCOLORS demoState)"
  "playInterval (togglePlay demoCOLORS demoState) = Some 0"
  "intervals (togglePlay demoCOLORS demoState) = [0]"
  "nextInterval (togglePlay demoCOLORS demoState) = 1"
  "currentYear (togglePlay demoCOLORS demoState) = 2000"
  by (simp_all add: togglePlay_def setInterval_def demoState_def initialState_def)

theorem pause_clears_timer_selection_keeps_it_witness:
  "isPlaying (togglePlay demoCOLORS demoState)
   \<and> playInterval (togglePlay demoCOLORS demoState) = Some 0
   \<and> 0 < nextInterval (togglePlay demoCOLORS demoState)
   \<and> 0 \<notin> set (intervals (run demoSTATES demoCOLORS [ChangeYear 2005, TogglePlay, Tick 0]
                             (togglePlay demoCOLORS (togglePlay demoCOLORS demoState))))
   \<and> intervals (run demoSTATES demoCOLORS [Select ''CA'', FetchDone ''CA'' (Some demoCA)]
                   (togglePlay demoCOLORS demoState)) = [0]"
proof -
  have h1: "isPlaying (togglePlay demoCOLORS demoState)"
    and h2: "playInterval (togglePlay demoCOLORS demoState) = Some 0"
    and h3: "0 < nextInterval (togglePlay demoCOLORS demoState)"
    by (simp_all add: demo_playing)
  show ?thesis
    using h1 h2 h3 demo_playing(3)
      pause_clears_timer_selection_keeps_it[where st="togglePlay demoCOLORS demoState" and t=0
        and C=demoCOLORS and S=demoSTATES and evs="[ChangeYear 2005, TogglePlay, Tick 0]"
        and r="''CA''" and res="Some demoCA", OF h1 h2 h3]
    by simp
qed

text \<open>
  C9 (as stated) fails: the animation is started, California is selected and its geometry
  arrives; timer 0 is still active, and its next firing advances the year from 2000 to 2001.
\<close>

theorem selection_keeps_timer_counterexample:
  "isPlaying (run demoSTATES demoCOLORS [TogglePlay] demoState)
   \<and> intervals (run demoSTATES demoCOLORS
        [TogglePlay, Select ''CA'', FetchDone ''CA'' (Some demoCA)] demoState) = [0]
   \<and> currentYear (run demoSTATES demoCOLORS
        [TogglePlay, Select ''CA'', FetchDone ''CA'' (Some demoCA)] demoState) = 2000
   \<and> currentYear (run demoSTATES demoCOLORS
        [TogglePlay, Select ''CA'', FetchDone ''CA'' (Some demoCA), Tick 0] demoState) = 2001"
proof -
  let ?s1 = "togglePlay demoCOLORS demoState"
  let ?s2 = "run demoSTATES demoCOLORS [Select ''CA'', FetchDone ''CA'' (Some demoCA)] ?s1"
  have r1: "run demoSTATES demoCOLORS (TogglePlay # evs) demoState
              = run demoSTATES demoCOLORS evs ?s1" for evs
    by (simp add: run_Cons step_def)
  have i2: "intervals ?s2 = [0]" and y2: "currentYear ?s2 = 2000"
    by (simp_all add: select_keeps_timer demo_playing)
  have "run demoSTATES demoCOLORS [Select ''CA'', FetchDone ''CA'' (Some demoCA), Tick 0] ?s1
          = step demoSTATES demoCOLORS (Tick 0) ?s2"
    using run_snoc[of demoSTATES demoCOLORS "[Select ''CA'', FetchDone ''CA'' (Some demoCA)]"
        "Tick 0" ?s1] by simp
  also have "\<dots> = updateYear demoCOLORS 2001 ?s2"
    by (simp add: step_def i2 playTick_def y2)
  finally have t: "currentYear (run demoSTATES demoCOLORS
        [Select ''CA'', FetchDone ''CA'' (Some demoCA), Tick 0] ?s1) = 2001"
    using updateYear_upd[of demoCOLORS 2001 ?s2] by auto
  show ?thesis
    unfolding r1 using i2 y2 t demo_playing(1) by (simp add: run_Nil)
qed

end
